theory Spec2Isabelle
  imports Complex_Main "HOL-Library.Word"
begin

section \<open>Wire protocol models (swift/Sources/OCRCli/main.swift)\<close>

text \<open>
  Swift's \<open>Double\<close>, \<open>Float\<close> and \<open>CGFloat\<close> and JavaScript's \<open>number\<close> are modelled as
  \<open>real\<close>: rounding, infinities and NaN are outside the model. Field names that several
  structs share (\<open>x\<close>, \<open>y\<close>, \<open>width\<close>, \<open>height\<close>, \<open>bounds\<close>) carry a prefix naming their
  struct, because record fields are global constants.
\<close>

record Command =
  action :: string
  languages :: "string list option"
  saveTo :: "string option"

record ReadyData =
  version :: string

record WindowBounds =
  bounds_x :: real
  bounds_y :: real
  bounds_width :: real
  bounds_height :: real

type_synonym CGWindowID = "32 word"

record WindowSelectedData =
  windowId :: "32 word option"
  appName :: "string option"
  windowTitle :: "string option"
  selectedBounds :: "WindowBounds option"

record NormalizedRect =
  rect_x :: real
  rect_y :: real
  rect_width :: real
  rect_height :: real

record NormalizedPoint =
  point_x :: real
  point_y :: real

record TextObservation =
  obs_text :: string
  confidence :: real
  boundingBox :: NormalizedRect
  topLeft :: NormalizedPoint
  topRight :: NormalizedPoint
  bottomRight :: NormalizedPoint
  bottomLeft :: NormalizedPoint

record OCRData =
  imageWidth :: int
  imageHeight :: int
  observations :: "TextObservation list"
  bounds :: "WindowBounds option"

datatype ResponseData =
  windowSelected WindowSelectedData
| ocr OCRData
| ready ReadyData

record Response =
  type :: string
  success :: bool
  data :: "ResponseData option"
  error :: "string option"

subsection \<open>Output helpers\<close>

text \<open>
  \<open>sendResponse\<close> prints one line per response; the model collects the responses
  themselves, in the order they are printed.
\<close>

definition sendError :: "string \<Rightarrow> string \<Rightarrow> Response list" where
  "sendError ty message = [\<lparr>type = ty, success = False, data = None, error = Some message\<rparr>]"

definition sendSuccess :: "string \<Rightarrow> ResponseData \<Rightarrow> Response list" where
  "sendSuccess ty d = [\<lparr>type = ty, success = True, data = Some d, error = None\<rparr>]"

section \<open>The platform services the worker calls\<close>

record CGRect =
  origin_x :: real
  origin_y :: real
  size_width :: real
  size_height :: real

record SCContentFilter =
  contentRect :: CGRect
  pointPixelScale :: real

record CGImage =
  cg_width :: int
  cg_height :: int

text \<open>A window dictionary of \<open>CGWindowListCopyWindowInfo\<close>: every entry may be missing.\<close>

record BoundsDict =
  dict_X :: "real option"
  dict_Y :: "real option"
  dict_Width :: "real option"
  dict_Height :: "real option"

record WindowInfo =
  kCGWindowBounds :: "BoundsDict option"
  kCGWindowNumber :: "CGWindowID option"

record VNRecognizedText =
  candidate_string :: string
  candidate_confidence :: real

record VNRecognizedTextObservation =
  topCandidates :: "VNRecognizedText list"
  vn_boundingBox :: NormalizedRect
  vn_topLeft :: NormalizedPoint
  vn_topRight :: NormalizedPoint
  vn_bottomRight :: NormalizedPoint
  vn_bottomLeft :: NormalizedPoint

text \<open>
  What the operating system answers at one moment. \<open>captureImage\<close> stands for
  \<open>SCScreenshotManager.captureImage\<close> with the stream configuration
  \<open>executeScan\<close> derives from the filter; \<open>performRequest\<close> stands for
  \<open>VNImageRequestHandler.perform\<close> followed by \<open>request.results\<close>. An \<open>Inl\<close> is the
  thrown error's \<open>localizedDescription\<close>.
\<close>

record Platform =
  onScreenWindows :: "WindowInfo list option"
  windowInfoFor :: "CGWindowID \<Rightarrow> WindowInfo list option"
  captureImage :: "SCContentFilter \<Rightarrow> string + CGImage"
  performRequest :: "CGImage \<Rightarrow> string list \<Rightarrow> string + VNRecognizedTextObservation list option"

section \<open>The worker: class AppDelegate\<close>

text \<open>
  The three stored properties of the class, and three fields for what the class leaves
  to the runtime: whether the picker is presented, the capture tasks \<open>executeScan\<close> has
  started that have not finished yet (each with the command and the filter it captured),
  and whether \<open>NSApp.terminate\<close> was called.
\<close>

record AppDelegate =
  currentFilter :: "SCContentFilter option"
  currentWindowID :: "CGWindowID option"
  pendingCommand :: "Command option"
  pickerPresented :: bool
  inFlight :: "(Command \<times> SCContentFilter) list"
  terminated :: bool

definition initialDelegate :: AppDelegate where
  "initialDelegate =
     \<lparr>currentFilter = None, currentWindowID = None, pendingCommand = None,
      pickerPresented = False, inFlight = [], terminated = False\<rparr>"

definition applicationDidFinishLaunching :: "AppDelegate \<times> Response list" where
  "applicationDidFinishLaunching =
     (initialDelegate, sendSuccess ''ready'' (ready \<lparr>version = ''1.0.0''\<rparr>))"

subsection \<open>Window bounds helpers\<close>

definition boundsOfDict :: "BoundsDict \<Rightarrow> WindowBounds option" where
  "boundsOfDict d =
     (case (dict_X d, dict_Y d, dict_Width d, dict_Height d) of
        (Some x, Some y, Some w, Some h) \<Rightarrow>
          Some \<lparr>bounds_x = x, bounds_y = y, bounds_width = w, bounds_height = h\<rparr>
      | _ \<Rightarrow> None)"

definition getCurrentWindowBounds :: "Platform \<Rightarrow> AppDelegate \<Rightarrow> WindowBounds option" where
  "getCurrentWindowBounds p s =
     (case currentWindowID s of
        None \<Rightarrow> None
      | Some windowID \<Rightarrow>
          (case windowInfoFor p windowID of
             None \<Rightarrow> None
           | Some [] \<Rightarrow> None
           | Some (windowInfo # _) \<Rightarrow>
               (case kCGWindowBounds windowInfo of
                  None \<Rightarrow> None
                | Some boundsDict \<Rightarrow> boundsOfDict boundsDict)))"

text \<open>The loop of \<open>findWindowID\<close>: the first window within the tolerance of 2 on all four values.\<close>

fun findWindowID_loop :: "CGRect \<Rightarrow> WindowInfo list \<Rightarrow> CGWindowID option" where
  "findWindowID_loop rect [] = None"
| "findWindowID_loop rect (windowInfo # rest) =
     (case (case kCGWindowBounds windowInfo of None \<Rightarrow> None | Some d \<Rightarrow> boundsOfDict d,
            kCGWindowNumber windowInfo) of
        (Some b, Some windowID) \<Rightarrow>
          (if \<bar>bounds_x b - origin_x rect\<bar> < 2 \<and> \<bar>bounds_y b - origin_y rect\<bar> < 2 \<and>
              \<bar>bounds_width b - size_width rect\<bar> < 2 \<and> \<bar>bounds_height b - size_height rect\<bar> < 2
           then Some windowID
           else findWindowID_loop rect rest)
      | _ \<Rightarrow> findWindowID_loop rect rest)"

definition findWindowID :: "Platform \<Rightarrow> CGRect \<Rightarrow> CGWindowID option" where
  "findWindowID p rect =
     (case onScreenWindows p of None \<Rightarrow> None | Some windowList \<Rightarrow> findWindowID_loop rect windowList)"

definition boundsOfRect :: "CGRect \<Rightarrow> WindowBounds" where
  "boundsOfRect rect =
     \<lparr>bounds_x = origin_x rect, bounds_y = origin_y rect,
      bounds_width = size_width rect, bounds_height = size_height rect\<rparr>"

subsection \<open>Window picker\<close>

definition showPicker :: "AppDelegate \<Rightarrow> AppDelegate" where
  "showPicker s = s\<lparr>pickerPresented := True\<rparr>"

subsection \<open>Scan: capture and OCR\<close>

text \<open>
  \<open>executeScan\<close> answers at once when there is no filter; otherwise it starts a
  \<open>Task\<close>, which the model queues. \<open>scanTask\<close> is the body of that task run to its
  end. The best-effort PNG write for \<open>saveTo\<close> prints nothing and is left out.
\<close>

definition executeScan :: "Command \<Rightarrow> AppDelegate \<Rightarrow> AppDelegate \<times> Response list" where
  "executeScan command s =
     (case currentFilter s of
        None \<Rightarrow> (s, sendError ''scan'' ''No window selected'')
      | Some flt \<Rightarrow> (s\<lparr>inFlight := inFlight s @ [(command, flt)]\<rparr>, []))"

definition textObservation :: "VNRecognizedTextObservation \<Rightarrow> TextObservation option" where
  "textObservation observation =
     (case topCandidates observation of
        [] \<Rightarrow> None
      | topCandidate # _ \<Rightarrow>
          Some \<lparr>obs_text = candidate_string topCandidate,
                confidence = candidate_confidence topCandidate,
                boundingBox = vn_boundingBox observation,
                topLeft = vn_topLeft observation,
                topRight = vn_topRight observation,
                bottomRight = vn_bottomRight observation,
                bottomLeft = vn_bottomLeft observation\<rparr>)"

definition performOCR :: "Platform \<Rightarrow> CGImage \<Rightarrow> string list \<Rightarrow> WindowBounds \<Rightarrow> Response list" where
  "performOCR p cgImage langs b =
     (case performRequest p cgImage langs of
        Inl e \<Rightarrow> sendError ''scan'' (''OCR failed: '' @ e)
      | Inr None \<Rightarrow>
          sendSuccess ''scan''
            (ocr \<lparr>imageWidth = cg_width cgImage, imageHeight = cg_height cgImage,
                  observations = [], bounds = Some b\<rparr>)
      | Inr (Some results) \<Rightarrow>
          sendSuccess ''scan''
            (ocr \<lparr>imageWidth = cg_width cgImage, imageHeight = cg_height cgImage,
                  observations = List.map_filter textObservation results, bounds = Some b\<rparr>))"

definition scanTask :: "Platform \<Rightarrow> AppDelegate \<Rightarrow> Command \<times> SCContentFilter \<Rightarrow> Response list" where
  "scanTask p s task =
     (case task of (command, flt) \<Rightarrow>
        (case captureImage p flt of
           Inl e \<Rightarrow> sendError ''scan'' (''Failed: '' @ e)
         | Inr img \<Rightarrow>
             performOCR p img
               (case languages command of None \<Rightarrow> [''ja'', ''en''] | Some ls \<Rightarrow> ls)
               (case getCurrentWindowBounds p s of
                  None \<Rightarrow> boundsOfRect (contentRect flt)
                | Some b \<Rightarrow> b)))"

subsection \<open>Commands\<close>

definition handleCommand :: "Command \<Rightarrow> AppDelegate \<Rightarrow> AppDelegate \<times> Response list" where
  "handleCommand command s =
     (if action command = ''pick'' then (showPicker s, [])
      else if action command = ''scan'' then
        (let s1 = s\<lparr>pendingCommand := Some command\<rparr>
         in if currentFilter s1 \<noteq> None then executeScan command s1 else (showPicker s1, []))
      else if action command = ''quit'' then (s\<lparr>terminated := True\<rparr>, [])
      else (s, sendError ''error'' (''Unknown action: '' @ action command)))"

text \<open>
  One turn of the loop of \<open>readStdin\<close>. \<open>decode\<close> stands for
  \<open>JSONDecoder().decode(Command.self, from:)\<close> on the line's bytes.
\<close>

definition readStdin_line ::
  "(string \<Rightarrow> Command option) \<Rightarrow> string \<Rightarrow> AppDelegate \<Rightarrow> AppDelegate \<times> Response list" where
  "readStdin_line decode line s =
     (if line = [] then (s, [])
      else case decode line of
        None \<Rightarrow> (s, sendError ''error'' ''Invalid JSON command'')
      | Some command \<Rightarrow> handleCommand command s)"

subsection \<open>The picker's observer callbacks\<close>

text \<open>The platform dismisses the picker when it reports an outcome.\<close>

definition didCancel :: "AppDelegate \<Rightarrow> AppDelegate \<times> Response list" where
  "didCancel s =
     (s\<lparr>pendingCommand := None, pickerPresented := False\<rparr>,
      sendError ''pick'' ''User cancelled window selection'')"

definition startDidFailWithError :: "string \<Rightarrow> AppDelegate \<Rightarrow> AppDelegate \<times> Response list" where
  "startDidFailWithError e s =
     (s\<lparr>pendingCommand := None, pickerPresented := False\<rparr>,
      sendError ''pick'' (''Picker failed to start: '' @ e))"

definition didUpdateWith ::
  "Platform \<Rightarrow> SCContentFilter \<Rightarrow> AppDelegate \<Rightarrow> AppDelegate \<times> Response list" where
  "didUpdateWith p flt s =
     (let rect = contentRect flt;
          s1 = s\<lparr>currentFilter := Some flt, currentWindowID := findWindowID p rect,
                 pickerPresented := False\<rparr>;
          windowData = \<lparr>windowId = currentWindowID s1, appName = None, windowTitle = None,
                        selectedBounds = Some (boundsOfRect rect)\<rparr>;
          out1 = sendSuccess ''pick'' (windowSelected windowData)
      in case pendingCommand s1 of
           None \<Rightarrow> (s1, out1)
         | Some pending \<Rightarrow>
             (case executeScan pending s1 of
                (s2, out2) \<Rightarrow> (s2\<lparr>pendingCommand := None\<rparr>, out1 @ out2)))"

subsection \<open>The worker as a transition system\<close>

datatype Event =
  StdinLine string
| StdinClosed
| PickerDidCancel
| PickerStartDidFail string
| PickerDidUpdate SCContentFilter
| TaskFinishes

text \<open>
  \<open>TaskFinishes\<close> is internal: the oldest capture task runs to its end and prints its
  response. A terminated worker does nothing.
\<close>

definition step ::
  "(string \<Rightarrow> Command option) \<Rightarrow> Platform \<Rightarrow> AppDelegate \<Rightarrow> Event \<Rightarrow> AppDelegate \<times> Response list" where
  "step decode p s ev =
     (if terminated s then (s, [])
      else case ev of
        StdinLine line \<Rightarrow> readStdin_line decode line s
      | StdinClosed \<Rightarrow> (s\<lparr>terminated := True\<rparr>, [])
      | PickerDidCancel \<Rightarrow> didCancel s
      | PickerStartDidFail e \<Rightarrow> startDidFailWithError e s
      | PickerDidUpdate flt \<Rightarrow> didUpdateWith p flt s
      | TaskFinishes \<Rightarrow>
          (case inFlight s of
             [] \<Rightarrow> (s, [])
           | task # rest \<Rightarrow> (s\<lparr>inFlight := rest\<rparr>, scanTask p s task)))"

text \<open>The three callbacks of the picker's observer, as events.\<close>

fun pickerOutcome :: "Event \<Rightarrow> bool" where
  "pickerOutcome PickerDidCancel = True"
| "pickerOutcome (PickerStartDidFail e) = True"
| "pickerOutcome (PickerDidUpdate flt) = True"
| "pickerOutcome ev = False"

text \<open>Whether an event is a line that decodes to a \<open>scan\<close> command.\<close>

definition readsScan :: "(string \<Rightarrow> Command option) \<Rightarrow> Event \<Rightarrow> bool" where
  "readsScan decode ev =
     (case ev of
        StdinLine line \<Rightarrow> (case decode line of None \<Rightarrow> False | Some k \<Rightarrow> action k = ''scan'')
      | _ \<Rightarrow> False)"

fun run ::
  "(string \<Rightarrow> Command option) \<Rightarrow> AppDelegate \<Rightarrow> (Platform \<times> Event) list \<Rightarrow> AppDelegate \<times> Response list" where
  "run decode s [] = (s, [])"
| "run decode s ((p, ev) # rest) =
     (case step decode p s ev of
        (s1, out1) \<Rightarrow> (case run decode s1 rest of (s2, out2) \<Rightarrow> (s2, out1 @ out2)))"

section \<open>The command codec\<close>

text \<open>
  Both ends leave the text of a message to their JSON library: the bridge calls
  \<open>JSON.stringify\<close>, the worker \<open>JSONDecoder\<close>. What the repository fixes is the
  object the bridge builds and the struct the worker decodes it into; both are modelled on
  JSON values. The text layer is a pair of parameters: \<open>stringify\<close> of type
  \<open>JSON \<Rightarrow> string\<close> and \<open>parse\<close> of type \<open>string \<Rightarrow> JSON option\<close>.
\<close>

datatype JSON =
  JNull
| JBool bool
| JNumber int
| JString string
| JArray "JSON list"
| JObject "(string \<times> JSON) list"

subsection \<open>The worker's side: struct Command: Codable\<close>

text \<open>
  The synthesized \<open>init(from:)\<close> of \<open>Command\<close>: \<open>action\<close> is required; the two optional
  fields decode with \<open>decodeIfPresent\<close>, so a missing key or \<open>null\<close> gives \<open>nil\<close> and a
  value of another type fails the whole decode. The outer option is the failure.
\<close>

definition decodeIfPresent_String :: "JSON option \<Rightarrow> string option option" where
  "decodeIfPresent_String v =
     (case v of
        None \<Rightarrow> Some None
      | Some JNull \<Rightarrow> Some None
      | Some (JString s) \<Rightarrow> Some (Some s)
      | Some _ \<Rightarrow> None)"

fun decode_Strings :: "JSON list \<Rightarrow> string list option" where
  "decode_Strings [] = Some []"
| "decode_Strings (JString s # rest) =
     (case decode_Strings rest of None \<Rightarrow> None | Some ss \<Rightarrow> Some (s # ss))"
| "decode_Strings (_ # rest) = None"

definition decodeIfPresent_Strings :: "JSON option \<Rightarrow> string list option option" where
  "decodeIfPresent_Strings v =
     (case v of
        None \<Rightarrow> Some None
      | Some JNull \<Rightarrow> Some None
      | Some (JArray xs) \<Rightarrow> (case decode_Strings xs of None \<Rightarrow> None | Some ss \<Rightarrow> Some (Some ss))
      | Some _ \<Rightarrow> None)"

definition decodeCommand :: "JSON \<Rightarrow> Command option" where
  "decodeCommand j =
     (case j of
        JObject members \<Rightarrow>
          (case map_of members ''action'' of
             Some (JString a) \<Rightarrow>
               (case decodeIfPresent_Strings (map_of members ''languages'') of
                  None \<Rightarrow> None
                | Some ls \<Rightarrow>
                    (case decodeIfPresent_String (map_of members ''saveTo'') of
                       None \<Rightarrow> None
                     | Some sv \<Rightarrow> Some \<lparr>action = a, languages = ls, saveTo = sv\<rparr>))
           | _ \<Rightarrow> None)
      | _ \<Rightarrow> None)"

definition jsonDecoder :: "(string \<Rightarrow> JSON option) \<Rightarrow> string \<Rightarrow> Command option" where
  "jsonDecoder parse line = (case parse line of None \<Rightarrow> None | Some j \<Rightarrow> decodeCommand j)"

text \<open>
  Swift's \<open>readLine()\<close> on the bytes still unread: \<open>None\<close> at the end of input, otherwise
  the line without its terminator (a line feed, or a carriage return and a line feed) and
  the bytes after it.
\<close>

definition readLine :: "string \<Rightarrow> (string \<times> string) option" where
  "readLine input =
     (if input = [] then None
      else let line = takeWhile (\<lambda>c. c \<noteq> CHR 0x0A) input;
               rest = dropWhile (\<lambda>c. c \<noteq> CHR 0x0A) input
           in if rest = [] then Some (line, [])
              else if line \<noteq> [] \<and> last line = CHR 0x0D then Some (butlast line, tl rest)
              else Some (line, tl rest))"

subsection \<open>The bridge's side: the objects given to sendCommand\<close>

text \<open>
  \<open>JSON.stringify\<close> leaves out a property whose value is \<open>undefined\<close>. The properties of
  \<open>options\<close> follow \<open>action\<close>, as the spread \<open>{ action: 'scan', ...options }\<close> puts them.
\<close>

record ScanOptions =
  opt_saveTo :: "string option"
  opt_languages :: "string list option"

definition optionMembers :: "ScanOptions \<Rightarrow> (string \<times> JSON) list" where
  "optionMembers options =
     (case opt_saveTo options of None \<Rightarrow> [] | Some p \<Rightarrow> [(''saveTo'', JString p)]) @
     (case opt_languages options of None \<Rightarrow> [] | Some ls \<Rightarrow> [(''languages'', JArray (map JString ls))])"

definition pickObject :: JSON where
  "pickObject = JObject [(''action'', JString ''pick'')]"

definition scanObject :: "ScanOptions option \<Rightarrow> JSON" where
  "scanObject options =
     JObject ((''action'', JString ''scan'') #
              (case options of None \<Rightarrow> [] | Some opts \<Rightarrow> optionMembers opts))"

definition quitObject :: JSON where
  "quitObject = JObject [(''action'', JString ''quit'')]"

text \<open>The object of any command, built the way the three above are.\<close>

definition commandObject :: "Command \<Rightarrow> JSON" where
  "commandObject c =
     JObject ((''action'', JString (action c)) #
              optionMembers \<lparr>opt_saveTo = saveTo c, opt_languages = languages c\<rparr>)"

text \<open>
  \<open>sendCommand\<close>: \<open>started\<close> says whether \<open>this.process?.stdin\<close> is there. \<open>Inl\<close> is the
  message of the error thrown, \<open>Inr\<close> the bytes written to the worker's standard input.
\<close>

definition sendCommand :: "(JSON \<Rightarrow> string) \<Rightarrow> bool \<Rightarrow> JSON \<Rightarrow> string + string" where
  "sendCommand stringify started command =
     (if \<not> started then Inl ''CLI not started'' else Inr (stringify command @ [CHR 0x0A]))"

subsection \<open>A reference text layer\<close>

text \<open>
  One concrete text layer, used where a statement needs a concrete line. The printer
  writes values made of \<open>null\<close>, booleans, integers, strings, arrays and objects the
  way \<open>JSON.stringify\<close> does without indentation: the quotation mark, the backslash
  and the control characters are escaped, every other character is written as it is (a
  character of the model is a byte). The reader reads JSON texts without fractions and
  exponents, and \<open>\u\<close> escapes below 0080 only. It takes fuel, one unit per nested
  value, array element or object member; the length of the text plus one is enough for
  the object of a command (lemma \<open>parseRef_commandObject\<close> below).
\<close>

definition hexDigit :: "nat \<Rightarrow> char" where
  "hexDigit n = (if n < 10 then char_of (48 + n) else char_of (87 + n))"

definition escapeChar :: "char \<Rightarrow> string" where
  "escapeChar c =
     (if c = CHR 0x22 then [CHR 0x5C, CHR 0x22]
      else if c = CHR 0x5C then [CHR 0x5C, CHR 0x5C]
      else if c = CHR 0x08 then [CHR 0x5C, CHR ''b'']
      else if c = CHR 0x0C then [CHR 0x5C, CHR ''f'']
      else if c = CHR 0x0A then [CHR 0x5C, CHR ''n'']
      else if c = CHR 0x0D then [CHR 0x5C, CHR ''r'']
      else if c = CHR 0x09 then [CHR 0x5C, CHR ''t'']
      else if (of_char c :: nat) < 32
        then [CHR 0x5C, CHR ''u'', CHR ''0'', CHR ''0'',
              hexDigit (of_char c div 16), hexDigit (of_char c mod 16)]
      else [c])"

definition quote :: "string \<Rightarrow> string" where
  "quote s = CHR 0x22 # concat (map escapeChar s) @ [CHR 0x22]"

fun showNat :: "nat \<Rightarrow> string" where
  "showNat n = (if n < 10 then [char_of (48 + n)] else showNat (n div 10) @ [char_of (48 + n mod 10)])"

definition showInt :: "int \<Rightarrow> string" where
  "showInt i = (if i < 0 then CHR ''-'' # showNat (nat (- i)) else showNat (nat i))"

fun commaSep :: "string list \<Rightarrow> string" where
  "commaSep [] = []"
| "commaSep [x] = x"
| "commaSep (x # y # rest) = x @ CHR '','' # commaSep (y # rest)"

fun stringifyRef :: "JSON \<Rightarrow> string" where
  "stringifyRef JNull = ''null''"
| "stringifyRef (JBool b) = (if b then ''true'' else ''false'')"
| "stringifyRef (JNumber i) = showInt i"
| "stringifyRef (JString s) = quote s"
| "stringifyRef (JArray xs) = CHR ''['' # commaSep (map stringifyRef xs) @ '']''"
| "stringifyRef (JObject ms) =
     CHR ''{'' # commaSep (map (\<lambda>(k, v). quote k @ CHR '':'' # stringifyRef v) ms) @ ''}''"

definition isWs :: "char \<Rightarrow> bool" where
  "isWs c = (c = CHR 0x20 \<or> c = CHR 0x09 \<or> c = CHR 0x0A \<or> c = CHR 0x0D)"

definition skipWs :: "string \<Rightarrow> string" where
  "skipWs cs = dropWhile isWs cs"

definition unescape :: "char \<Rightarrow> char option" where
  "unescape e =
     (if e = CHR 0x22 then Some (CHR 0x22)
      else if e = CHR 0x5C then Some (CHR 0x5C)
      else if e = CHR ''/'' then Some (CHR ''/'')
      else if e = CHR ''b'' then Some (CHR 0x08)
      else if e = CHR ''f'' then Some (CHR 0x0C)
      else if e = CHR ''n'' then Some (CHR 0x0A)
      else if e = CHR ''r'' then Some (CHR 0x0D)
      else if e = CHR ''t'' then Some (CHR 0x09)
      else None)"

definition hexVal :: "char \<Rightarrow> nat option" where
  "hexVal c =
     (let n = (of_char c :: nat)
      in if 48 \<le> n \<and> n \<le> 57 then Some (n - 48)
         else if 97 \<le> n \<and> n \<le> 102 then Some (n - 87)
         else if 65 \<le> n \<and> n \<le> 70 then Some (n - 55)
         else None)"

definition unicodeEscape :: "char \<Rightarrow> char \<Rightarrow> char \<Rightarrow> char \<Rightarrow> char option" where
  "unicodeEscape a b c d =
     (case (hexVal a, hexVal b, hexVal c, hexVal d) of
        (Some h3, Some h2, Some h1, Some h0) \<Rightarrow>
          (let n = ((h3 * 16 + h2) * 16 + h1) * 16 + h0
           in if n < 128 then Some (char_of n) else None)
      | _ \<Rightarrow> None)"

fun parseChars :: "string \<Rightarrow> (string \<times> string) option" where
  "parseChars [] = None"
| "parseChars [c] = (if c = CHR 0x22 then Some ([], []) else None)"
| "parseChars (c # e # cs) =
     (if c = CHR 0x22 then Some ([], e # cs)
      else if c = CHR 0x5C then
        (if e = CHR ''u'' then
           (case cs of
              a # b # c' # d # cs' \<Rightarrow>
                (case unicodeEscape a b c' d of
                   None \<Rightarrow> None
                 | Some ch \<Rightarrow>
                     (case parseChars cs' of None \<Rightarrow> None | Some (s, r) \<Rightarrow> Some (ch # s, r)))
            | _ \<Rightarrow> None)
         else
           (case unescape e of
              None \<Rightarrow> None
            | Some ch \<Rightarrow> (case parseChars cs of None \<Rightarrow> None | Some (s, r) \<Rightarrow> Some (ch # s, r))))
      else if (of_char c :: nat) < 32 then None
      else (case parseChars (e # cs) of None \<Rightarrow> None | Some (s, r) \<Rightarrow> Some (c # s, r)))"

definition isDigit :: "char \<Rightarrow> bool" where
  "isDigit c = (48 \<le> (of_char c :: nat) \<and> (of_char c :: nat) \<le> 57)"

definition readNat :: "string \<Rightarrow> nat" where
  "readNat ds = foldl (\<lambda>n c. 10 * n + (of_char c - 48)) 0 ds"

definition parseNumber :: "string \<Rightarrow> (JSON \<times> string) option" where
  "parseNumber cs =
     (let (neg, body) =
            (case cs of [] \<Rightarrow> (False, []) | c # r \<Rightarrow> if c = CHR ''-'' then (True, r) else (False, cs));
          ds = takeWhile isDigit body;
          r = dropWhile isDigit body
      in if ds = [] \<or> (length ds > 1 \<and> hd ds = CHR ''0'') then None
         else if r \<noteq> [] \<and> (hd r = CHR ''.'' \<or> hd r = CHR ''e'' \<or> hd r = CHR ''E'') then None
         else Some (JNumber (if neg then - int (readNat ds) else int (readNat ds)), r))"

definition stripPrefix :: "string \<Rightarrow> string \<Rightarrow> string option" where
  "stripPrefix pre cs = (if take (length pre) cs = pre then Some (drop (length pre) cs) else None)"

fun parseValue :: "nat \<Rightarrow> string \<Rightarrow> (JSON \<times> string) option"
and parseElements :: "nat \<Rightarrow> string \<Rightarrow> (JSON list \<times> string) option"
and parseMembers :: "nat \<Rightarrow> string \<Rightarrow> ((string \<times> JSON) list \<times> string) option" where
  "parseValue 0 cs = None"
| "parseValue (Suc n) cs =
     (case skipWs cs of
        [] \<Rightarrow> None
      | c # rest \<Rightarrow>
          if c = CHR 0x22 then
            (case parseChars rest of None \<Rightarrow> None | Some (s, r) \<Rightarrow> Some (JString s, r))
          else if c = CHR ''['' then
            (case skipWs rest of
               [] \<Rightarrow> None
             | d # r \<Rightarrow>
                 if d = CHR '']'' then Some (JArray [], r)
                 else (case parseElements n (d # r) of
                         None \<Rightarrow> None
                       | Some (xs, r') \<Rightarrow> Some (JArray xs, r')))
          else if c = CHR ''{'' then
            (case skipWs rest of
               [] \<Rightarrow> None
             | d # r \<Rightarrow>
                 if d = CHR ''}'' then Some (JObject [], r)
                 else (case parseMembers n (d # r) of
                         None \<Rightarrow> None
                       | Some (ms, r') \<Rightarrow> Some (JObject ms, r')))
          else if c = CHR ''t'' then
            (case stripPrefix ''rue'' rest of None \<Rightarrow> None | Some r \<Rightarrow> Some (JBool True, r))
          else if c = CHR ''f'' then
            (case stripPrefix ''alse'' rest of None \<Rightarrow> None | Some r \<Rightarrow> Some (JBool False, r))
          else if c = CHR ''n'' then
            (case stripPrefix ''ull'' rest of None \<Rightarrow> None | Some r \<Rightarrow> Some (JNull, r))
          else parseNumber (c # rest))"
| "parseElements 0 cs = None"
| "parseElements (Suc n) cs =
     (case parseValue n cs of
        None \<Rightarrow> None
      | Some (v, r) \<Rightarrow>
          (case skipWs r of
             [] \<Rightarrow> None
           | c # r' \<Rightarrow>
               if c = CHR '','' then
                 (case parseElements n r' of None \<Rightarrow> None | Some (vs, r'') \<Rightarrow> Some (v # vs, r''))
               else if c = CHR '']'' then Some ([v], r')
               else None))"
| "parseMembers 0 cs = None"
| "parseMembers (Suc n) cs =
     (case skipWs cs of
        [] \<Rightarrow> None
      | q # r0 \<Rightarrow>
          if q \<noteq> CHR 0x22 then None
          else
            (case parseChars r0 of
               None \<Rightarrow> None
             | Some (k, r1) \<Rightarrow>
                 (case skipWs r1 of
                    [] \<Rightarrow> None
                  | colon # r2 \<Rightarrow>
                      if colon \<noteq> CHR '':'' then None
                      else
                        (case parseValue n r2 of
                           None \<Rightarrow> None
                         | Some (v, r3) \<Rightarrow>
                             (case skipWs r3 of
                                [] \<Rightarrow> None
                              | c # r4 \<Rightarrow>
                                  if c = CHR '','' then
                                    (case parseMembers n r4 of
                                       None \<Rightarrow> None
                                     | Some (ms, r5) \<Rightarrow> Some ((k, v) # ms, r5))
                                  else if c = CHR ''}'' then Some ([(k, v)], r4)
                                  else None)))))"

definition parseRef :: "string \<Rightarrow> JSON option" where
  "parseRef cs =
     (case parseValue (Suc (length cs)) cs of
        None \<Rightarrow> None
      | Some (j, r) \<Rightarrow> if skipWs r = [] then Some j else None)"

text \<open>
  The values an object of a command holds, a string or an array of strings, and fuel that
  is enough to read one of them.
\<close>

definition flatValue :: "JSON \<Rightarrow> bool" where
  "flatValue v =
     (case v of JString s \<Rightarrow> True | JArray xs \<Rightarrow> decode_Strings xs \<noteq> None | _ \<Rightarrow> False)"

definition fuelFor :: "JSON \<Rightarrow> nat" where
  "fuelFor v = (case v of JArray xs \<Rightarrow> length xs + 2 | _ \<Rightarrow> 1)"

definition referenceDecode :: "string \<Rightarrow> Command option" where
  "referenceDecode line = jsonDecoder parseRef line"

section \<open>The bridge: class OCRBridge (src/main/ocr-bridge.ts)\<close>

text \<open>
  \<open>CLIResponse\<close> as \<open>processBuffer\<close> hands it to the listeners. A property that is
  missing, \<open>undefined\<close> or \<open>null\<close> is \<open>None\<close>.
\<close>

record CLIData =
  d_version :: "string option"
  d_windowId :: "real option"
  d_appName :: "string option"
  d_windowTitle :: "string option"
  d_bounds :: "WindowBounds option"
  d_imageWidth :: "real option"
  d_imageHeight :: "real option"
  d_observations :: "TextObservation list option"

record CLIResponse =
  r_type :: string
  r_success :: bool
  r_data :: "CLIData option"
  r_error :: "string option"

text \<open>What \<open>pick\<close> and \<open>scan\<close> resolve with (the bridge's \<open>WindowSelectedData\<close> and \<open>OCRData\<close>).\<close>

record PickResult =
  pick_windowId :: "real option"
  pick_appName :: "string option"
  pick_windowTitle :: "string option"
  pick_bounds :: "WindowBounds option"

record ScanResult =
  scan_imageWidth :: "real option"
  scan_imageHeight :: "real option"
  scan_observations :: "TextObservation list"
  scan_bounds :: "WindowBounds option"

text \<open>A promise settles once: \<open>resolve\<close> and \<open>reject\<close> on a settled promise do nothing.\<close>

datatype 'a Promise = Pending | Resolved 'a | Rejected string

definition resolve :: "'a \<Rightarrow> 'a Promise \<Rightarrow> 'a Promise" where
  "resolve v p = (case p of Pending \<Rightarrow> Resolved v | _ \<Rightarrow> p)"

definition reject :: "string \<Rightarrow> 'a Promise \<Rightarrow> 'a Promise" where
  "reject m p = (case p of Pending \<Rightarrow> Rejected m | _ \<Rightarrow> p)"

text \<open>JavaScript's \<open>e || d\<close> on an optional string: \<open>undefined\<close> and the empty string are falsy.\<close>

definition orElse :: "string option \<Rightarrow> string \<Rightarrow> string" where
  "orElse e d = (case e of None \<Rightarrow> d | Some m \<Rightarrow> if m = [] then d else m)"

text \<open>
  One call in flight: whether its handler is registered for \<open>response\<close>, the delay in
  milliseconds of its timer while the timer is armed, its promise, and the bytes it wrote.
\<close>

record 'a Call =
  listening :: bool
  timer :: "nat option"
  promise :: "'a Promise"
  written :: "string list"

subsection \<open>pick\<close>

definition pick_onTimeout :: "PickResult Call \<Rightarrow> PickResult Call" where
  "pick_onTimeout c =
     c\<lparr>listening := False, timer := None,
       promise := reject ''Window selection timed out'' (promise c)\<rparr>"

definition pick_handler :: "CLIResponse \<Rightarrow> PickResult Call \<Rightarrow> PickResult Call" where
  "pick_handler response c =
     (if r_type response = ''pick'' then
        (let c1 = c\<lparr>timer := None, listening := False\<rparr>
         in case (r_success response, r_data response) of
              (True, Some d) \<Rightarrow>
                c1\<lparr>promise :=
                     resolve \<lparr>pick_windowId = d_windowId d, pick_appName = d_appName d,
                              pick_windowTitle = d_windowTitle d, pick_bounds = d_bounds d\<rparr>
                       (promise c1)\<rparr>
            | _ \<Rightarrow> c1\<lparr>promise := reject (orElse (r_error response) ''Pick failed'') (promise c1)\<rparr>)
      else c)"

definition pick :: "(JSON \<Rightarrow> string) \<Rightarrow> bool \<Rightarrow> PickResult Call" where
  "pick stringify started =
     (case sendCommand stringify started pickObject of
        Inl e \<Rightarrow> \<lparr>listening = True, timer = Some 60000, promise = Rejected e, written = []\<rparr>
      | Inr bytes \<Rightarrow> \<lparr>listening = True, timer = Some 60000, promise = Pending, written = [bytes]\<rparr>)"

subsection \<open>scan\<close>

definition scan_onTimeout :: "ScanResult Call \<Rightarrow> ScanResult Call" where
  "scan_onTimeout c =
     c\<lparr>listening := False, timer := None, promise := reject ''OCR scan timed out'' (promise c)\<rparr>"

definition scan_handler :: "CLIResponse \<Rightarrow> ScanResult Call \<Rightarrow> ScanResult Call" where
  "scan_handler response c =
     (if r_type response = ''scan'' \<or> r_type response = ''pick'' then
        (if r_type response = ''pick'' then
           (if \<not> r_success response then
              c\<lparr>timer := None, listening := False,
                promise := reject (orElse (r_error response) ''Window selection cancelled'') (promise c)\<rparr>
            else c)
         else
           (let c1 = c\<lparr>timer := None, listening := False\<rparr>
            in case (r_success response, r_data response) of
                 (True, Some d) \<Rightarrow>
                   c1\<lparr>promise :=
                        resolve \<lparr>scan_imageWidth = d_imageWidth d, scan_imageHeight = d_imageHeight d,
                                 scan_observations =
                                   (case d_observations d of None \<Rightarrow> [] | Some os \<Rightarrow> os),
                                 scan_bounds = d_bounds d\<rparr>
                          (promise c1)\<rparr>
               | _ \<Rightarrow> c1\<lparr>promise := reject (orElse (r_error response) ''Scan failed'') (promise c1)\<rparr>))
      else c)"

definition scan :: "(JSON \<Rightarrow> string) \<Rightarrow> bool \<Rightarrow> ScanOptions option \<Rightarrow> ScanResult Call" where
  "scan stringify started options =
     (case sendCommand stringify started (scanObject options) of
        Inl e \<Rightarrow> \<lparr>listening = True, timer = Some 30000, promise = Rejected e, written = []\<rparr>
      | Inr bytes \<Rightarrow> \<lparr>listening = True, timer = Some 30000, promise = Pending, written = [bytes]\<rparr>)"

subsection \<open>The event loop seen from one call\<close>

text \<open>
  \<open>emit\<close> is \<open>this.emit('response', response)\<close>: the handler runs while it is registered.
  \<open>advance\<close> moves the clock to \<open>t\<close> milliseconds after the call: a timer still armed
  whose delay has passed runs its callback. \<open>timeline\<close> delivers the responses that
  arrive up to time \<open>t\<close>, each at its arrival time, in the order of the list.
\<close>

definition emit :: "(CLIResponse \<Rightarrow> 'a Call \<Rightarrow> 'a Call) \<Rightarrow> CLIResponse \<Rightarrow> 'a Call \<Rightarrow> 'a Call" where
  "emit handler response c = (if listening c then handler response c else c)"

definition advance :: "('a Call \<Rightarrow> 'a Call) \<Rightarrow> nat \<Rightarrow> 'a Call \<Rightarrow> 'a Call" where
  "advance onTimeout t c =
     (case timer c of None \<Rightarrow> c | Some delay \<Rightarrow> if delay \<le> t then onTimeout c else c)"

fun timeline ::
  "(CLIResponse \<Rightarrow> 'a Call \<Rightarrow> 'a Call) \<Rightarrow> ('a Call \<Rightarrow> 'a Call) \<Rightarrow>
   'a Call \<Rightarrow> (nat \<times> CLIResponse) list \<Rightarrow> nat \<Rightarrow> 'a Call" where
  "timeline handler onTimeout c [] t = advance onTimeout t c"
| "timeline handler onTimeout c ((ta, response) # rest) t =
     (if ta \<le> t
      then timeline handler onTimeout (emit handler response (advance onTimeout ta c)) rest t
      else advance onTimeout t c)"

text \<open>\<open>deliver\<close> emits the responses of a list one after the other.\<close>

fun deliver :: "(CLIResponse \<Rightarrow> 'a Call \<Rightarrow> 'a Call) \<Rightarrow> 'a Call \<Rightarrow> CLIResponse list \<Rightarrow> 'a Call" where
  "deliver handler c [] = c"
| "deliver handler c (response # rest) = deliver handler (emit handler response c) rest"

section \<open>The overlay renderer (src/renderer/overlay/overlay.ts)\<close>

text \<open>
  The \<open>span\<close> element with the style properties the renderer sets. Lengths are pixels;
  \<open>style_transform\<close> is the angle of \<open>rotate(...deg)\<close>.
\<close>

record Span =
  className :: string
  textContent :: string
  style_left :: real
  style_top :: real
  style_width :: real
  style_height :: real
  style_transformOrigin :: "string option"
  style_transform :: "real option"
  style_fontSize :: "real option"

text \<open>
  \<open>Math.atan2(y, x)\<close> on the reals: the angle of the point \<open>(x, y)\<close> in \<open>(-\<pi>, \<pi>]\<close>,
  and 0 at the origin.
\<close>

definition atan2 :: "real \<Rightarrow> real \<Rightarrow> real" where
  "atan2 y x =
     (if 0 < x then arctan (y / x)
      else if x < 0 \<and> 0 \<le> y then arctan (y / x) + pi
      else if x < 0 then arctan (y / x) - pi
      else if 0 < y then pi / 2
      else if y < 0 then - (pi / 2)
      else 0)"

definition calculateRotation :: "TextObservation \<Rightarrow> real" where
  "calculateRotation obs =
     (let dx = point_x (topRight obs) - point_x (topLeft obs);
          dy = point_y (topRight obs) - point_y (topLeft obs)
      in atan2 (- dy) dx * (180 / pi))"

text \<open>\<open>scrollWidth\<close> is the browser's measurement of the span as it is styled at that moment.\<close>

definition fitTextToWidth :: "(Span \<Rightarrow> real) \<Rightarrow> Span \<Rightarrow> real \<Rightarrow> real \<Rightarrow> Span" where
  "fitTextToWidth scrollWidth el targetWidth maxFontSize =
     (let MIN_FONT_SIZE = 8;
          span1 = el\<lparr>style_fontSize := Some maxFontSize\<rparr>;
          measuredWidth = scrollWidth span1
      in if measuredWidth \<le> targetWidth then span1
         else let scaledSize = maxFontSize * (targetWidth / measuredWidth);
                  finalSize = max scaledSize MIN_FONT_SIZE
              in span1\<lparr>style_fontSize := Some finalSize\<rparr>)"

text \<open>The body of the loop of \<open>renderOCRResults\<close>: \<open>None\<close> is the \<open>continue\<close>.\<close>

definition renderObservation ::
  "(Span \<Rightarrow> real) \<Rightarrow> real \<Rightarrow> real \<Rightarrow> TextObservation \<Rightarrow> Span option" where
  "renderObservation scrollWidth overlayWidth overlayHeight obs =
     (let baseX = rect_x (boundingBox obs) * overlayWidth;
          baseY = (1 - rect_y (boundingBox obs) - rect_height (boundingBox obs)) * overlayHeight;
          baseWidth = rect_width (boundingBox obs) * overlayWidth;
          baseHeight = rect_height (boundingBox obs) * overlayHeight
      in if baseWidth < 10 \<or> baseHeight < 8 then None
         else let x = baseX - 1;
                  y = baseY - 1;
                  width = baseWidth + 2;
                  height = baseHeight + 2;
                  rotation = calculateRotation obs;
                  span0 = \<lparr>className = ''ocr-text'', textContent = obs_text obs,
                          style_left = x, style_top = y, style_width = width, style_height = height,
                          style_transformOrigin = None, style_transform = None,
                          style_fontSize = None\<rparr>;
                  span1 = (if \<bar>rotation\<bar> > 0.5
                           then span0\<lparr>style_transformOrigin := Some ''left top'',
                                     style_transform := Some rotation\<rparr>
                           else span0)
              in Some (fitTextToWidth scrollWidth span1 width height))"

text \<open>
  \<open>renderOCRResults\<close> empties the container, so the result is the container's new
  children, in order, together with the number the final \<open>console.log\<close> prints in
  "Rendered ... text regions".
\<close>

definition renderOCRResults ::
  "(Span \<Rightarrow> real) \<Rightarrow> real \<Rightarrow> real \<Rightarrow> OCRData \<Rightarrow> Span list \<times> nat" where
  "renderOCRResults scrollWidth overlayWidth overlayHeight d =
     (List.map_filter (renderObservation scrollWidth overlayWidth overlayHeight) (observations d),
      length (observations d))"

section \<open>The invariant of a response\<close>

text \<open>\<open>data\<close> with success, \<open>error\<close> with failure, never both and never neither.\<close>

definition exactlyOneOf :: "Response \<Rightarrow> bool" where
  "exactlyOneOf r =
     (if success r then data r \<noteq> None \<and> error r = None
      else error r \<noteq> None \<and> data r = None)"

section \<open>Sample inputs\<close>

text \<open>
  The scenario of the specification: a window at (100, 100) of size 400 by 300 with
  handle 42, a capture of 800 by 600 pixels, and a recognition that finds no text.
\<close>

definition sampleFilter :: SCContentFilter where
  "sampleFilter =
     \<lparr>contentRect = \<lparr>origin_x = 100, origin_y = 100, size_width = 400, size_height = 300\<rparr>,
      pointPixelScale = 2\<rparr>"

definition samplePlatform :: Platform where
  "samplePlatform =
     \<lparr>onScreenWindows =
        Some [\<lparr>kCGWindowBounds =
                 Some \<lparr>dict_X = Some 100, dict_Y = Some 100,
                       dict_Width = Some 400, dict_Height = Some 300\<rparr>,
               kCGWindowNumber = Some 42\<rparr>],
      windowInfoFor = (\<lambda>windowID. None),
      captureImage = (\<lambda>flt. Inr \<lparr>cg_width = 800, cg_height = 600\<rparr>),
      performRequest = (\<lambda>img ls. Inr (Some []))\<rparr>"

text \<open>What the worker prints in that scenario for a pick, a scan and a cancelled pick.\<close>

definition samplePickSuccess :: Response where
  "samplePickSuccess =
     \<lparr>type = ''pick'', success = True,
      data = Some (windowSelected
        \<lparr>windowId = Some 42, appName = None, windowTitle = None,
         selectedBounds = Some \<lparr>bounds_x = 100, bounds_y = 100,
                                 bounds_width = 400, bounds_height = 300\<rparr>\<rparr>),
      error = None\<rparr>"

definition sampleScanSuccess :: Response where
  "sampleScanSuccess =
     \<lparr>type = ''scan'', success = True,
      data = Some (ocr
        \<lparr>imageWidth = 800, imageHeight = 600, observations = [],
         bounds = Some \<lparr>bounds_x = 100, bounds_y = 100,
                         bounds_width = 400, bounds_height = 300\<rparr>\<rparr>),
      error = None\<rparr>"

definition samplePickCancelled :: Response where
  "samplePickCancelled =
     \<lparr>type = ''pick'', success = False, data = None,
      error = Some ''User cancelled window selection''\<rparr>"

definition scanLine :: string where
  \<open>scanLine = ''{"action":"scan"}''\<close>

definition pickLine :: string where
  \<open>pickLine = ''{"action":"pick"}''\<close>

definition fooLine :: string where
  \<open>fooLine = ''{"action":"foo"}''\<close>

definition brokenLine :: string where
  \<open>brokenLine = ''{"action":''\<close>

definition scanCommand :: Command where
  "scanCommand = \<lparr>action = ''scan'', languages = None, saveTo = None\<rparr>"

definition pickCommand :: Command where
  "pickCommand = \<lparr>action = ''pick'', languages = None, saveTo = None\<rparr>"

definition fooCommand :: Command where
  "fooCommand = \<lparr>action = ''foo'', languages = None, saveTo = None\<rparr>"

definition fullCommand :: Command where
  "fullCommand =
     \<lparr>action = ''scan'', languages = Some [''ja'', ''en''], saveTo = Some ''/tmp/shot.png''\<rparr>"

text \<open>Responses as the bridge receives them.\<close>

definition pickSucceeded :: CLIResponse where
  "pickSucceeded =
     \<lparr>r_type = ''pick'', r_success = True,
      r_data = Some \<lparr>d_version = None, d_windowId = Some 42, d_appName = None,
                      d_windowTitle = None,
                      d_bounds = Some \<lparr>bounds_x = 100, bounds_y = 100,
                                       bounds_width = 400, bounds_height = 300\<rparr>,
                      d_imageWidth = None, d_imageHeight = None, d_observations = None\<rparr>,
      r_error = None\<rparr>"

definition pickCancelled :: CLIResponse where
  "pickCancelled =
     \<lparr>r_type = ''pick'', r_success = False, r_data = None,
      r_error = Some ''User cancelled window selection''\<rparr>"

definition pickFailedSilently :: CLIResponse where
  "pickFailedSilently =
     \<lparr>r_type = ''pick'', r_success = False, r_data = None, r_error = Some []\<rparr>"

definition scanSucceeded :: CLIResponse where
  "scanSucceeded =
     \<lparr>r_type = ''scan'', r_success = True,
      r_data = Some \<lparr>d_version = None, d_windowId = None, d_appName = None,
                      d_windowTitle = None,
                      d_bounds = Some \<lparr>bounds_x = 100, bounds_y = 100,
                                       bounds_width = 400, bounds_height = 300\<rparr>,
                      d_imageWidth = Some 800, d_imageHeight = Some 600,
                      d_observations = Some []\<rparr>,
      r_error = None\<rparr>"

text \<open>Arrivals at the bridge, in milliseconds after the call.\<close>

definition lateArrivals :: "(nat \<times> CLIResponse) list" where
  "lateArrivals = [(1000, scanSucceeded), (61000, pickSucceeded)]"

text \<open>
  Observations for an overlay of 100 by 100 pixels: one line of 50 by 10 pixels that is
  level, one of the same size that rises at 45 degrees, and a speck of 5 by 10 pixels.
  The sample browser lays every character out half as wide as the font is high.
\<close>

definition levelObservation :: TextObservation where
  "levelObservation =
     \<lparr>obs_text = ''abc'', confidence = 1,
      boundingBox = \<lparr>rect_x = 0.2, rect_y = 0.3, rect_width = 0.5, rect_height = 0.1\<rparr>,
      topLeft = \<lparr>point_x = 0, point_y = 1\<rparr>, topRight = \<lparr>point_x = 1, point_y = 1\<rparr>,
      bottomRight = \<lparr>point_x = 1, point_y = 0\<rparr>, bottomLeft = \<lparr>point_x = 0, point_y = 0\<rparr>\<rparr>"

definition risingObservation :: TextObservation where
  "risingObservation =
     \<lparr>obs_text = ''a long line of recognized text'', confidence = 1,
      boundingBox = \<lparr>rect_x = 0.2, rect_y = 0.3, rect_width = 0.5, rect_height = 0.1\<rparr>,
      topLeft = \<lparr>point_x = 0, point_y = 0\<rparr>, topRight = \<lparr>point_x = 1, point_y = 1\<rparr>,
      bottomRight = \<lparr>point_x = 1, point_y = 0\<rparr>, bottomLeft = \<lparr>point_x = 0, point_y = 0\<rparr>\<rparr>"

definition speckObservation :: TextObservation where
  "speckObservation =
     \<lparr>obs_text = ''.'', confidence = 1,
      boundingBox = \<lparr>rect_x = 0.2, rect_y = 0.3, rect_width = 0.05, rect_height = 0.1\<rparr>,
      topLeft = \<lparr>point_x = 0, point_y = 1\<rparr>, topRight = \<lparr>point_x = 1, point_y = 1\<rparr>,
      bottomRight = \<lparr>point_x = 1, point_y = 0\<rparr>, bottomLeft = \<lparr>point_x = 0, point_y = 0\<rparr>\<rparr>"

definition sampleScrollWidth :: "Span \<Rightarrow> real" where
  "sampleScrollWidth el =
     (case style_fontSize el of
        None \<Rightarrow> 0
      | Some fontSize \<Rightarrow> fontSize * real (length (textContent el)) / 2)"

text \<open>The spans the renderer makes of the level and of the rising line on that overlay.\<close>

definition levelSpan :: Span where
  "levelSpan =
     \<lparr>className = ''ocr-text'', textContent = ''abc'',
      style_left = 19, style_top = 59, style_width = 52, style_height = 12,
      style_transformOrigin = None, style_transform = None, style_fontSize = Some 12\<rparr>"

definition risingSpan :: Span where
  "risingSpan =
     \<lparr>className = ''ocr-text'', textContent = ''a long line of recognized text'',
      style_left = 19, style_top = 59, style_width = 52, style_height = 12,
      style_transformOrigin = Some ''left top'', style_transform = Some (- 45),
      style_fontSize = Some 8\<rparr>"

section \<open>Properties of the worker\<close>

subsection \<open>Single steps\<close>

lemma performOCR_single: "\<exists>r. performOCR p img ls b = [r] \<and> type r = ''scan''"
  by (simp add: performOCR_def sendError_def sendSuccess_def split: sum.split option.split)

lemma scanTask_single: "\<exists>r. scanTask p s task = [r] \<and> type r = ''scan''"
  using performOCR_single
  by (cases task) (simp add: scanTask_def sendError_def split: sum.split)

lemma handleCommand_scan_NoTarget:
  "currentFilter s = None \<Longrightarrow> action c = ''scan'' \<Longrightarrow>
   handleCommand c s = (s\<lparr>pendingCommand := Some c, pickerPresented := True\<rparr>, [])"
  by (simp add: handleCommand_def showPicker_def)

lemma handleCommand_scan_Target:
  "currentFilter s = Some flt \<Longrightarrow> action c = ''scan'' \<Longrightarrow>
   handleCommand c s = (s\<lparr>pendingCommand := Some c, inFlight := inFlight s @ [(c, flt)]\<rparr>, [])"
  by (simp add: handleCommand_def executeScan_def)

lemma didUpdateWith_pending:
  "pendingCommand s = Some c \<Longrightarrow>
   didUpdateWith p flt s =
     (s\<lparr>currentFilter := Some flt, currentWindowID := findWindowID p (contentRect flt),
        pickerPresented := False, inFlight := inFlight s @ [(c, flt)], pendingCommand := None\<rparr>,
      sendSuccess ''pick''
        (windowSelected \<lparr>windowId = findWindowID p (contentRect flt), appName = None,
                         windowTitle = None,
                         selectedBounds = Some (boundsOfRect (contentRect flt))\<rparr>))"
  by (simp add: didUpdateWith_def executeScan_def Let_def)

lemma didUpdateWith_idle:
  "pendingCommand s = None \<Longrightarrow>
   didUpdateWith p flt s =
     (s\<lparr>currentFilter := Some flt, currentWindowID := findWindowID p (contentRect flt),
        pickerPresented := False\<rparr>,
      sendSuccess ''pick''
        (windowSelected \<lparr>windowId = findWindowID p (contentRect flt), appName = None,
                         windowTitle = None,
                         selectedBounds = Some (boundsOfRect (contentRect flt))\<rparr>))"
  by (simp add: didUpdateWith_def Let_def)

lemma sendError_exactlyOneOf: "r \<in> set (sendError ty m) \<Longrightarrow> exactlyOneOf r"
  by (simp add: sendError_def exactlyOneOf_def)

lemma sendSuccess_exactlyOneOf: "r \<in> set (sendSuccess ty d) \<Longrightarrow> exactlyOneOf r"
  by (simp add: sendSuccess_def exactlyOneOf_def)

lemma performOCR_exactlyOneOf: "r \<in> set (performOCR p img ls b) \<Longrightarrow> exactlyOneOf r"
  by (auto simp: performOCR_def split: sum.splits option.splits
           dest: sendError_exactlyOneOf sendSuccess_exactlyOneOf)

lemma scanTask_exactlyOneOf: "r \<in> set (scanTask p s task) \<Longrightarrow> exactlyOneOf r"
  by (cases task)
     (auto simp: scanTask_def split: sum.splits
           dest: sendError_exactlyOneOf performOCR_exactlyOneOf)

lemma executeScan_exactlyOneOf: "r \<in> set (snd (executeScan c s)) \<Longrightarrow> exactlyOneOf r"
  by (auto simp: executeScan_def split: option.splits dest: sendError_exactlyOneOf)

lemma handleCommand_exactlyOneOf: "r \<in> set (snd (handleCommand c s)) \<Longrightarrow> exactlyOneOf r"
  by (auto simp: handleCommand_def Let_def split: if_splits
           dest: sendError_exactlyOneOf executeScan_exactlyOneOf)

lemma readStdin_line_exactlyOneOf:
  "r \<in> set (snd (readStdin_line decode line s)) \<Longrightarrow> exactlyOneOf r"
  by (auto simp: readStdin_line_def split: if_splits option.splits
           dest: sendError_exactlyOneOf handleCommand_exactlyOneOf)

lemma didUpdateWith_exactlyOneOf:
  "r \<in> set (snd (didUpdateWith p flt s)) \<Longrightarrow> exactlyOneOf r"
proof (cases "pendingCommand s")
  case None
  assume "r \<in> set (snd (didUpdateWith p flt s))"
  with None show ?thesis
    by (simp add: didUpdateWith_idle sendSuccess_exactlyOneOf)
next
  case (Some c)
  assume "r \<in> set (snd (didUpdateWith p flt s))"
  with Some show ?thesis
    by (simp add: didUpdateWith_pending sendSuccess_exactlyOneOf)
qed

lemma step_exactlyOneOf: "r \<in> set (snd (step decode p s ev)) \<Longrightarrow> exactlyOneOf r"
  by (cases ev)
     (auto simp: step_def didCancel_def startDidFailWithError_def
           split: if_splits list.splits
           dest: readStdin_line_exactlyOneOf sendError_exactlyOneOf
                 didUpdateWith_exactlyOneOf scanTask_exactlyOneOf)

lemma run_exactlyOneOf: "r \<in> set (snd (run decode s evs)) \<Longrightarrow> exactlyOneOf r"
proof (induction evs arbitrary: s)
  case Nil
  then show ?case by simp
next
  case (Cons pe evs)
  obtain p ev where pe: "pe = (p, ev)" by (cases pe)
  obtain s1 out1 where st: "step decode p s ev = (s1, out1)" by (cases "step decode p s ev")
  obtain s2 out2 where rn: "run decode s1 evs = (s2, out2)" by (cases "run decode s1 evs")
  from Cons.prems pe st rn have "r \<in> set out1 \<or> r \<in> set out2" by simp
  then show ?case
  proof
    assume "r \<in> set out1"
    with st show ?thesis using step_exactlyOneOf [of r decode p s ev] by simp
  next
    assume "r \<in> set out2"
    with rn show ?thesis using Cons.IH [of s1] by simp
  qed
qed

subsection \<open>Invariants of runs\<close>

text \<open>
  Only a picker callback clears the pending command, and a worker without a target has no
  capture in flight.
\<close>

lemma run_Cons_state:
  "fst (run decode s ((p, ev) # rest)) = fst (run decode (fst (step decode p s ev)) rest)"
  by (simp split: prod.split)

lemma step_keeps_pending:
  assumes "pendingCommand s \<noteq> None" and "\<not> pickerOutcome ev"
  shows "pendingCommand (fst (step decode p s ev)) \<noteq> None"
  using assms
  by (cases ev)
     (auto simp: step_def readStdin_line_def handleCommand_def showPicker_def executeScan_def
                 Let_def
           split: option.splits list.splits)

lemma run_keeps_pending:
  assumes "pendingCommand s \<noteq> None" and "\<forall>pe \<in> set evs. \<not> pickerOutcome (snd pe)"
  shows "pendingCommand (fst (run decode s evs)) \<noteq> None"
  using assms
proof (induction evs arbitrary: s)
  case Nil
  then show ?case by simp
next
  case (Cons pe evs)
  obtain p ev where pe: "pe = (p, ev)" by (cases pe)
  obtain s1 out1 where st: "step decode p s ev = (s1, out1)" by (cases "step decode p s ev")
  from Cons.prems pe have "\<not> pickerOutcome ev" by simp
  with Cons.prems(1) st have "pendingCommand s1 \<noteq> None"
    using step_keeps_pending [of s ev decode p] by simp
  with Cons.prems(2) have "pendingCommand (fst (run decode s1 evs)) \<noteq> None"
    by (intro Cons.IH) simp_all
  with pe st show ?case by (simp add: run_Cons_state del: run.simps)
qed

lemma step_targetless_idle:
  assumes "currentFilter s = None \<longrightarrow> inFlight s = []"
  shows "currentFilter (fst (step decode p s ev)) = None \<longrightarrow>
         inFlight (fst (step decode p s ev)) = []"
  using assms
  by (cases ev)
     (auto simp: step_def readStdin_line_def handleCommand_def showPicker_def executeScan_def
                 didCancel_def startDidFailWithError_def didUpdateWith_def Let_def
           split: option.splits list.splits prod.splits)

lemma run_targetless_idle:
  assumes "currentFilter s = None \<longrightarrow> inFlight s = []"
  shows "currentFilter (fst (run decode s evs)) = None \<longrightarrow>
         inFlight (fst (run decode s evs)) = []"
  using assms
proof (induction evs arbitrary: s)
  case Nil
  then show ?case by simp
next
  case (Cons pe evs)
  obtain p ev where pe: "pe = (p, ev)" by (cases pe)
  obtain s1 out1 where st: "step decode p s ev = (s1, out1)" by (cases "step decode p s ev")
  have "currentFilter s1 = None \<longrightarrow> inFlight s1 = []"
    using step_targetless_idle [OF Cons.prems, of decode p ev] st by simp
  then have "currentFilter (fst (run decode s1 evs)) = None \<longrightarrow>
             inFlight (fst (run decode s1 evs)) = []"
    by (rule Cons.IH)
  with pe st show ?case by (simp add: run_Cons_state del: run.simps)
qed

lemma reachable_targetless_idle:
  "currentFilter (fst (run decode initialDelegate evs)) = None \<Longrightarrow>
   inFlight (fst (run decode initialDelegate evs)) = []"
  using run_targetless_idle [of initialDelegate decode evs]
  by (simp add: initialDelegate_def)

lemma scanTask_state:
  "currentWindowID s = currentWindowID t \<Longrightarrow> scanTask p s task = scanTask p t task"
proof -
  assume "currentWindowID s = currentWindowID t"
  then have "getCurrentWindowBounds p s = getCurrentWindowBounds p t"
    by (simp add: getCurrentWindowBounds_def)
  then show ?thesis by (simp add: scanTask_def split: prod.split sum.split)
qed

lemma run_append:
  "run decode s (xs @ ys) =
     (case run decode s xs of
        (s1, out1) \<Rightarrow> (case run decode s1 ys of (s2, out2) \<Rightarrow> (s2, out1 @ out2)))"
  by (induction xs arbitrary: s) (auto split: prod.splits)

lemma drain_tasks:
  "\<not> terminated s \<Longrightarrow> inFlight s = ts \<Longrightarrow>
   run decode s (replicate (length ts) (p, TaskFinishes)) =
     (s\<lparr>inFlight := []\<rparr>, concat (map (scanTask p s) ts))"
proof (induction ts arbitrary: s)
  case Nil
  then show ?case by (cases s) simp
next
  case (Cons t ts)
  have st: "step decode p s TaskFinishes = (s\<lparr>inFlight := ts\<rparr>, scanTask p s t)"
    using Cons.prems by (simp add: step_def)
  have "run decode (s\<lparr>inFlight := ts\<rparr>) (replicate (length ts) (p, TaskFinishes)) =
          (s\<lparr>inFlight := ts\<rparr>\<lparr>inFlight := []\<rparr>, concat (map (scanTask p (s\<lparr>inFlight := ts\<rparr>)) ts))"
    using Cons.prems by (intro Cons.IH) simp_all
  moreover have "map (scanTask p (s\<lparr>inFlight := ts\<rparr>)) ts = map (scanTask p s) ts"
    by (intro map_cong refl scanTask_state) simp
  ultimately show ?case
    using st by simp
qed

lemma step_keeps_scan_pending:
  assumes "\<exists>k. pendingCommand s = Some k \<and> action k = ''scan''" and "\<not> pickerOutcome ev"
  shows "\<exists>k. pendingCommand (fst (step decode p s ev)) = Some k \<and> action k = ''scan''"
  using assms
  by (cases ev)
     (auto simp: step_def readStdin_line_def handleCommand_def showPicker_def executeScan_def
                 Let_def
           split: option.splits list.splits)

lemma step_keeps_same_pending:
  assumes "pendingCommand s = Some c" and "\<not> pickerOutcome ev" and "\<not> readsScan decode ev"
  shows "pendingCommand (fst (step decode p s ev)) = Some c"
  using assms
  by (cases ev)
     (auto simp: step_def readStdin_line_def handleCommand_def showPicker_def executeScan_def
                 readsScan_def Let_def
           split: option.splits list.splits)

lemma run_keeps_scan_pending:
  assumes "\<exists>k. pendingCommand s = Some k \<and> action k = ''scan''"
    and "\<forall>x \<in> set evs. \<not> pickerOutcome (snd x)"
  shows "\<exists>k. pendingCommand (fst (run decode s evs)) = Some k \<and> action k = ''scan''"
  using assms
proof (induction evs arbitrary: s)
  case Nil
  then show ?case by simp
next
  case (Cons x evs)
  obtain p ev where x: "x = (p, ev)" by (cases x)
  from Cons.prems x have "\<not> pickerOutcome ev" by simp
  with Cons.prems(1)
  have "\<exists>k. pendingCommand (fst (step decode p s ev)) = Some k \<and> action k = ''scan''"
    by (rule step_keeps_scan_pending)
  then have "\<exists>k. pendingCommand (fst (run decode (fst (step decode p s ev)) evs)) = Some k \<and>
                 action k = ''scan''"
    using Cons.prems(2) by (intro Cons.IH) simp_all
  with x show ?case by (simp add: run_Cons_state del: run.simps)
qed

lemma run_keeps_same_pending:
  assumes "pendingCommand s = Some c"
    and "\<forall>x \<in> set evs. \<not> pickerOutcome (snd x)"
    and "\<forall>x \<in> set evs. \<not> readsScan decode (snd x)"
  shows "pendingCommand (fst (run decode s evs)) = Some c"
  using assms
proof (induction evs arbitrary: s)
  case Nil
  then show ?case by simp
next
  case (Cons x evs)
  obtain p ev where x: "x = (p, ev)" by (cases x)
  from Cons.prems x have "\<not> pickerOutcome ev" and "\<not> readsScan decode ev" by simp_all
  with Cons.prems(1)
  have "pendingCommand (fst (step decode p s ev)) = Some c"
    by (rule step_keeps_same_pending)
  then have "pendingCommand (fst (run decode (fst (step decode p s ev)) evs)) = Some c"
    using Cons.prems(2,3) by (intro Cons.IH) simp_all
  with x show ?case by (simp add: run_Cons_state del: run.simps)
qed

subsection \<open>The sample lines and the sample run\<close>

lemma referenceDecode_scanLine: "referenceDecode scanLine = Some scanCommand"
  by code_simp

lemma referenceDecode_pickLine: "referenceDecode pickLine = Some pickCommand"
  by code_simp

lemma referenceDecode_fooLine: "referenceDecode fooLine = Some fooCommand"
  by code_simp

lemma referenceDecode_brokenLine: "referenceDecode brokenLine = None"
  by code_simp

lemma referenceDecode_empty: "referenceDecode [] = None"
  by code_simp

lemma sample_run_types:
  "map type (snd (run referenceDecode initialDelegate
     [(samplePlatform, StdinLine scanLine), (samplePlatform, PickerDidUpdate sampleFilter),
      (samplePlatform, TaskFinishes), (samplePlatform, StdinLine fooLine)])) =
   [''pick'', ''scan'', ''error'']"
proof -
  have a: "step referenceDecode samplePlatform initialDelegate (StdinLine scanLine) =
          (initialDelegate\<lparr>pendingCommand := Some scanCommand, pickerPresented := True\<rparr>, [])"
    using referenceDecode_scanLine
    by (simp add: step_def readStdin_line_def handleCommand_def showPicker_def
                  initialDelegate_def scanCommand_def scanLine_def)
  have b: "map type (scanTask samplePlatform s (c, flt)) = [''scan'']" for s c flt
    by (simp add: scanTask_def samplePlatform_def performOCR_def sendSuccess_def)
  have c: "readStdin_line referenceDecode fooLine s = (s, sendError ''error'' ''Unknown action: foo'')" for s
    using referenceDecode_fooLine
    by (simp add: readStdin_line_def handleCommand_def fooCommand_def fooLine_def)
  show ?thesis
    using a b c
    by (simp add: step_def didUpdateWith_pending sendSuccess_def sendError_def initialDelegate_def
             split: prod.split)
qed

lemma sample_findWindowID: "findWindowID samplePlatform (contentRect sampleFilter) = Some 42"
  by (simp add: findWindowID_def samplePlatform_def sampleFilter_def boundsOfDict_def)

lemma sample_scanTask: "scanTask samplePlatform s (c, sampleFilter) = [sampleScanSuccess]"
proof -
  have "getCurrentWindowBounds samplePlatform s = None"
    by (simp add: getCurrentWindowBounds_def samplePlatform_def split: option.split)
  then show ?thesis
    by (simp add: scanTask_def performOCR_def sendSuccess_def sampleScanSuccess_def
                  samplePlatform_def sampleFilter_def boundsOfRect_def)
qed

lemma sample_pick_response:
  "\<lparr>type = ''pick'', success = True,
    data = Some (windowSelected
      \<lparr>windowId = findWindowID samplePlatform (contentRect sampleFilter), appName = None,
       windowTitle = None,
       selectedBounds = Some (boundsOfRect (contentRect sampleFilter))\<rparr>),
    error = None\<rparr> = samplePickSuccess"
  unfolding sample_findWindowID
  by (simp add: samplePickSuccess_def boundsOfRect_def sampleFilter_def)

lemma sample_scan_then_pick:
  "run referenceDecode (initialDelegate\<lparr>currentFilter := Some sampleFilter\<rparr>)
     [(samplePlatform, StdinLine scanLine), (samplePlatform, TaskFinishes),
      (samplePlatform, StdinLine pickLine)] =
   (initialDelegate\<lparr>currentFilter := Some sampleFilter, pendingCommand := Some scanCommand,
      pickerPresented := True\<rparr>,
    [sampleScanSuccess])"
proof -
  let ?s = "initialDelegate\<lparr>currentFilter := Some sampleFilter\<rparr>"
  have a: "step referenceDecode samplePlatform ?s (StdinLine scanLine) =
             (?s\<lparr>pendingCommand := Some scanCommand,
                 inFlight := [(scanCommand, sampleFilter)]\<rparr>, [])"
    using referenceDecode_scanLine
    by (simp add: step_def readStdin_line_def handleCommand_scan_Target scanLine_def
                  scanCommand_def initialDelegate_def)
  have b: "step referenceDecode samplePlatform
             (?s\<lparr>pendingCommand := Some scanCommand,
                 inFlight := [(scanCommand, sampleFilter)]\<rparr>) TaskFinishes =
             (?s\<lparr>pendingCommand := Some scanCommand, inFlight := []\<rparr>, [sampleScanSuccess])"
    by (simp add: step_def sample_scanTask initialDelegate_def)
  have c: "step referenceDecode samplePlatform
             (?s\<lparr>pendingCommand := Some scanCommand, inFlight := []\<rparr>) (StdinLine pickLine) =
             (?s\<lparr>pendingCommand := Some scanCommand, inFlight := [],
                 pickerPresented := True\<rparr>, [])"
    using referenceDecode_pickLine
    by (simp add: step_def readStdin_line_def handleCommand_def showPicker_def pickLine_def
                  pickCommand_def initialDelegate_def)
  show ?thesis
    using a b c by (simp add: initialDelegate_def)
qed

subsection \<open>A scan before any window is chosen\<close>

text \<open>
  Claim C1. A worker without a target (and so without a capture in flight) that reads a
  \<open>scan\<close> command records the command as pending, presents the picker and prints
  nothing. If the picker then reports a window, the worker prints the \<open>pick\<close> success
  and, once the capture task it started has finished, with no further input, exactly one
  \<open>scan\<close> response, the one of that command on the new filter; the pending record is
  cleared. If the picker is cancelled or fails to start, the worker prints the \<open>pick\<close>
  failure alone, no capture is in flight, and the pending record is gone.
\<close>

theorem scan_without_target:
  assumes "currentFilter s = None" and "inFlight s = []" and "\<not> terminated s"
    and "line \<noteq> []" and "decode line = Some c" and "action c = ''scan''"
  shows
    "step decode pa s (StdinLine line) =
       (s\<lparr>pendingCommand := Some c, pickerPresented := True\<rparr>, []) \<and>
     (\<exists>r. run decode s [(pa, StdinLine line), (pb, PickerDidUpdate flt), (pc, TaskFinishes)] =
            (s\<lparr>currentFilter := Some flt, currentWindowID := findWindowID pb (contentRect flt),
               pendingCommand := None, pickerPresented := False\<rparr>,
             [\<lparr>type = ''pick'', success = True,
               data = Some (windowSelected
                 \<lparr>windowId = findWindowID pb (contentRect flt), appName = None,
                  windowTitle = None,
                  selectedBounds = Some (boundsOfRect (contentRect flt))\<rparr>),
               error = None\<rparr>,
              r]) \<and>
          type r = ''scan'' \<and>
          scanTask pc
            (s\<lparr>currentFilter := Some flt, currentWindowID := findWindowID pb (contentRect flt),
               pendingCommand := None, pickerPresented := False, inFlight := [(c, flt)]\<rparr>)
            (c, flt) = [r]) \<and>
     run decode s [(pa, StdinLine line), (pb, PickerDidCancel), (pc, TaskFinishes)] =
       (s\<lparr>pendingCommand := None, pickerPresented := False\<rparr>,
        [\<lparr>type = ''pick'', success = False, data = None,
          error = Some ''User cancelled window selection''\<rparr>]) \<and>
     run decode s [(pa, StdinLine line), (pb, PickerStartDidFail e), (pc, TaskFinishes)] =
       (s\<lparr>pendingCommand := None, pickerPresented := False\<rparr>,
        [\<lparr>type = ''pick'', success = False, data = None,
          error = Some (''Picker failed to start: '' @ e)\<rparr>])"
proof -
  let ?s1 = "s\<lparr>pendingCommand := Some c, pickerPresented := True\<rparr>"
  let ?s2 = "s\<lparr>currentFilter := Some flt, currentWindowID := findWindowID pb (contentRect flt),
               pendingCommand := None, pickerPresented := False, inFlight := [(c, flt)]\<rparr>"
  have a: "step decode pa s (StdinLine line) = (?s1, [])"
    using assms by (simp add: step_def readStdin_line_def handleCommand_scan_NoTarget)
  have b: "step decode pb ?s1 (PickerDidUpdate flt) =
             (?s2, [\<lparr>type = ''pick'', success = True,
                     data = Some (windowSelected
                       \<lparr>windowId = findWindowID pb (contentRect flt), appName = None,
                        windowTitle = None,
                        selectedBounds = Some (boundsOfRect (contentRect flt))\<rparr>),
                     error = None\<rparr>])"
    using assms by (simp add: step_def didUpdateWith_pending sendSuccess_def)
  obtain r where r: "scanTask pc ?s2 (c, flt) = [r]" "type r = ''scan''"
    using scanTask_single by blast
  have c: "step decode pc ?s2 TaskFinishes =
             (s\<lparr>currentFilter := Some flt, currentWindowID := findWindowID pb (contentRect flt),
                pendingCommand := None, pickerPresented := False\<rparr>, [r])"
    using assms r by (simp add: step_def)
  have d: "step decode pb ?s1 PickerDidCancel =
             (s\<lparr>pendingCommand := None, pickerPresented := False\<rparr>,
              [\<lparr>type = ''pick'', success = False, data = None,
                error = Some ''User cancelled window selection''\<rparr>])"
    using assms by (simp add: step_def didCancel_def sendError_def)
  have e: "step decode pb ?s1 (PickerStartDidFail e) =
             (s\<lparr>pendingCommand := None, pickerPresented := False\<rparr>,
              [\<lparr>type = ''pick'', success = False, data = None,
                error = Some (''Picker failed to start: '' @ e)\<rparr>])"
    using assms by (simp add: step_def startDidFailWithError_def sendError_def)
  have f: "step decode pc (s\<lparr>pendingCommand := None, pickerPresented := False\<rparr>) TaskFinishes =
             (s\<lparr>pendingCommand := None, pickerPresented := False\<rparr>, [])"
    using assms by (simp add: step_def)
  show ?thesis
    using a b c d e f r by simp
qed

text \<open>
  C1 on the initial worker, the line \<open>{"action":"scan"}\<close> and the sample window.
\<close>

theorem scan_without_target_witness:
  "currentFilter initialDelegate = None \<and> inFlight initialDelegate = [] \<and>
   \<not> terminated initialDelegate \<and> scanLine \<noteq> [] \<and>
   referenceDecode scanLine = Some scanCommand \<and> action scanCommand = ''scan'' \<and>
   snd (run referenceDecode initialDelegate
     [(samplePlatform, StdinLine scanLine), (samplePlatform, PickerDidUpdate sampleFilter),
      (samplePlatform, TaskFinishes)]) = [samplePickSuccess, sampleScanSuccess] \<and>
   snd (run referenceDecode initialDelegate
     [(samplePlatform, StdinLine scanLine), (samplePlatform, PickerDidCancel),
      (samplePlatform, TaskFinishes)]) = [samplePickCancelled]"
proof -
  have h1: "currentFilter initialDelegate = None" by (simp add: initialDelegate_def)
  have h2: "inFlight initialDelegate = []" by (simp add: initialDelegate_def)
  have h3: "\<not> terminated initialDelegate" by (simp add: initialDelegate_def)
  have h4: "scanLine \<noteq> []" by (simp add: scanLine_def)
  have h5: "referenceDecode scanLine = Some scanCommand" by (rule referenceDecode_scanLine)
  have h6: "action scanCommand = ''scan''" by (simp add: scanCommand_def)
  note th = scan_without_target [where s = initialDelegate and line = scanLine
        and decode = referenceDecode and c = scanCommand
        and pa = samplePlatform and pb = samplePlatform and pc = samplePlatform
        and flt = sampleFilter and e = "''denied''", OF h1 h2 h3 h4 h5 h6]
  from th obtain r where
    r: "run referenceDecode initialDelegate
          [(samplePlatform, StdinLine scanLine), (samplePlatform, PickerDidUpdate sampleFilter),
           (samplePlatform, TaskFinishes)] =
        (initialDelegate\<lparr>currentFilter := Some sampleFilter,
           currentWindowID := findWindowID samplePlatform (contentRect sampleFilter),
           pendingCommand := None, pickerPresented := False\<rparr>,
         [\<lparr>type = ''pick'', success = True,
           data = Some (windowSelected
             \<lparr>windowId = findWindowID samplePlatform (contentRect sampleFilter), appName = None,
              windowTitle = None,
              selectedBounds = Some (boundsOfRect (contentRect sampleFilter))\<rparr>),
           error = None\<rparr>, r])"
    and t: "scanTask samplePlatform
            (initialDelegate\<lparr>currentFilter := Some sampleFilter,
               currentWindowID := findWindowID samplePlatform (contentRect sampleFilter),
               pendingCommand := None, pickerPresented := False,
               inFlight := [(scanCommand, sampleFilter)]\<rparr>)
            (scanCommand, sampleFilter) = [r]"
    by blast
  from t have "r = sampleScanSuccess" by (simp add: sample_scanTask)
  with r have ok: "snd (run referenceDecode initialDelegate
          [(samplePlatform, StdinLine scanLine), (samplePlatform, PickerDidUpdate sampleFilter),
           (samplePlatform, TaskFinishes)]) = [samplePickSuccess, sampleScanSuccess]"
    by (simp only: snd_conv sample_pick_response)
  from th have "run referenceDecode initialDelegate
     [(samplePlatform, StdinLine scanLine), (samplePlatform, PickerDidCancel),
      (samplePlatform, TaskFinishes)] =
       (initialDelegate\<lparr>pendingCommand := None, pickerPresented := False\<rparr>,
        [\<lparr>type = ''pick'', success = False, data = None,
          error = Some ''User cancelled window selection''\<rparr>])"
    by blast
  then have cancelled: "snd (run referenceDecode initialDelegate
     [(samplePlatform, StdinLine scanLine), (samplePlatform, PickerDidCancel),
      (samplePlatform, TaskFinishes)]) = [samplePickCancelled]"
    by (simp only: snd_conv samplePickCancelled_def)
  show ?thesis using h1 h2 h3 h4 h5 h6 ok cancelled by blast
qed

subsection \<open>A scan on a chosen window leaves its command pending\<close>

text \<open>
  Claim C4, amended. A worker with a target that reads a \<open>scan\<close> command stores the
  command as pending before it starts the capture, whatever else is in flight. Let any
  events follow that are not callbacks of the picker (captures finishing, further lines)
  and do not end the worker: a scan command is still pending, the same one when no other
  scan command was read. If the picker then reports a window, the worker prints the
  \<open>pick\<close> success, clears the pending command and starts its scan again on the new filter:
  when the captures in flight have finished, the last response printed is that additional
  \<open>scan\<close> response. If instead the picker is cancelled or fails to start, the worker
  prints the \<open>pick\<close> failure and clears the pending command, and a picker success after
  that prints the \<open>pick\<close> success alone and starts no capture.
\<close>

theorem stale_scan_after_pick:
  assumes "currentFilter s = Some fa" and "\<not> terminated s"
    and "la \<noteq> []" and "decode la = Some c" and "action c = ''scan''"
    and "\<forall>x \<in> set evs. \<not> pickerOutcome (snd x)"
    and "run decode s ((pa, StdinLine la) # evs) = (sa, out)" and "\<not> terminated sa"
  shows
    "step decode pa s (StdinLine la) =
       (s\<lparr>pendingCommand := Some c, inFlight := inFlight s @ [(c, fa)]\<rparr>, []) \<and>
     (\<exists>k. pendingCommand sa = Some k \<and> action k = ''scan'' \<and>
        ((\<forall>x \<in> set evs. \<not> readsScan decode (snd x)) \<longrightarrow> k = c) \<and>
        (\<exists>r. run decode sa
                ((pd, PickerDidUpdate fb) #
                 replicate (Suc (length (inFlight sa))) (pe, TaskFinishes)) =
               (sa\<lparr>currentFilter := Some fb,
                   currentWindowID := findWindowID pd (contentRect fb),
                   pendingCommand := None, pickerPresented := False, inFlight := []\<rparr>,
                \<lparr>type = ''pick'', success = True,
                  data = Some (windowSelected
                    \<lparr>windowId = findWindowID pd (contentRect fb), appName = None,
                     windowTitle = None,
                     selectedBounds = Some (boundsOfRect (contentRect fb))\<rparr>),
                  error = None\<rparr> #
                concat (map (scanTask pe
                               (sa\<lparr>currentFilter := Some fb,
                                   currentWindowID := findWindowID pd (contentRect fb)\<rparr>))
                          (inFlight sa)) @ [r]) \<and>
              type r = ''scan'' \<and>
              scanTask pe
                (sa\<lparr>currentFilter := Some fb,
                    currentWindowID := findWindowID pd (contentRect fb)\<rparr>) (k, fb) = [r])) \<and>
     step decode pd sa PickerDidCancel =
       (sa\<lparr>pendingCommand := None, pickerPresented := False\<rparr>,
        [\<lparr>type = ''pick'', success = False, data = None,
          error = Some ''User cancelled window selection''\<rparr>]) \<and>
     step decode pd sa (PickerStartDidFail e) =
       (sa\<lparr>pendingCommand := None, pickerPresented := False\<rparr>,
        [\<lparr>type = ''pick'', success = False, data = None,
          error = Some (''Picker failed to start: '' @ e)\<rparr>]) \<and>
     step decode pd (sa\<lparr>pendingCommand := None, pickerPresented := False\<rparr>)
       (PickerDidUpdate fb) =
       (sa\<lparr>currentFilter := Some fb, currentWindowID := findWindowID pd (contentRect fb),
           pendingCommand := None, pickerPresented := False\<rparr>,
        [\<lparr>type = ''pick'', success = True,
          data = Some (windowSelected
            \<lparr>windowId = findWindowID pd (contentRect fb), appName = None,
             windowTitle = None,
             selectedBounds = Some (boundsOfRect (contentRect fb))\<rparr>),
          error = None\<rparr>])"
proof -
  let ?s1 = "s\<lparr>pendingCommand := Some c, inFlight := inFlight s @ [(c, fa)]\<rparr>"
  let ?w = "findWindowID pd (contentRect fb)"
  let ?pick = "\<lparr>type = ''pick'', success = True,
                 data = Some (windowSelected
                   \<lparr>windowId = ?w, appName = None, windowTitle = None,
                    selectedBounds = Some (boundsOfRect (contentRect fb))\<rparr>),
                 error = None\<rparr>"
  let ?sb = "sa\<lparr>currentFilter := Some fb, currentWindowID := ?w\<rparr>"
  have a: "step decode pa s (StdinLine la) = (?s1, [])"
    using assms by (simp add: step_def readStdin_line_def handleCommand_scan_Target)
  have sa: "sa = fst (run decode ?s1 evs)"
    using assms(7) a by (simp split: prod.splits)
  have "\<exists>k. pendingCommand ?s1 = Some k \<and> action k = ''scan''"
    using assms(5) by simp
  then have "\<exists>k. pendingCommand (fst (run decode ?s1 evs)) = Some k \<and> action k = ''scan''"
    using assms(6) by (rule run_keeps_scan_pending)
  then obtain k where k: "pendingCommand sa = Some k" "action k = ''scan''"
    unfolding sa by blast
  have same: "k = c" if "\<forall>x \<in> set evs. \<not> readsScan decode (snd x)"
  proof -
    have "pendingCommand ?s1 = Some c" by simp
    then have "pendingCommand (fst (run decode ?s1 evs)) = Some c"
      using assms(6) that by (rule run_keeps_same_pending)
    with k(1) show ?thesis unfolding sa by simp
  qed
  let ?s2 = "sa\<lparr>currentFilter := Some fb, currentWindowID := ?w, pickerPresented := False,
                inFlight := inFlight sa @ [(k, fb)], pendingCommand := None\<rparr>"
  have b: "step decode pd sa (PickerDidUpdate fb) = (?s2, [?pick])"
    using assms(8) k by (simp add: step_def didUpdateWith_pending sendSuccess_def)
  have st: "scanTask pe ?s2 = scanTask pe ?sb"
    by (rule ext, rule scanTask_state) simp
  obtain r where r: "scanTask pe ?sb (k, fb) = [r]" "type r = ''scan''"
    using scanTask_single by blast
  have len: "length (inFlight sa @ [(k, fb)]) = Suc (length (inFlight sa))"
    by simp
  have outs: "concat (map (scanTask pe ?s2) (inFlight sa @ [(k, fb)])) =
              concat (map (scanTask pe ?sb) (inFlight sa)) @ [r]"
    using r(1) by (simp add: st)
  have "run decode ?s2 (replicate (length (inFlight sa @ [(k, fb)])) (pe, TaskFinishes)) =
          (?s2\<lparr>inFlight := []\<rparr>, concat (map (scanTask pe ?s2) (inFlight sa @ [(k, fb)])))"
    using assms(8) by (intro drain_tasks) simp_all
  then have c: "run decode ?s2 (replicate (Suc (length (inFlight sa))) (pe, TaskFinishes)) =
          (?s2\<lparr>inFlight := []\<rparr>, concat (map (scanTask pe ?sb) (inFlight sa)) @ [r])"
    unfolding len outs .
  have d: "run decode sa
             ((pd, PickerDidUpdate fb) #
              replicate (Suc (length (inFlight sa))) (pe, TaskFinishes)) =
           (sa\<lparr>currentFilter := Some fb, currentWindowID := ?w,
               pendingCommand := None, pickerPresented := False, inFlight := []\<rparr>,
            ?pick # concat (map (scanTask pe ?sb) (inFlight sa)) @ [r])"
    using b c by (simp del: replicate.simps replicate_Suc)
  have e: "step decode pd sa PickerDidCancel =
       (sa\<lparr>pendingCommand := None, pickerPresented := False\<rparr>,
        [\<lparr>type = ''pick'', success = False, data = None,
          error = Some ''User cancelled window selection''\<rparr>])"
    using assms(8) by (simp add: step_def didCancel_def sendError_def)
  have f: "step decode pd sa (PickerStartDidFail e) =
       (sa\<lparr>pendingCommand := None, pickerPresented := False\<rparr>,
        [\<lparr>type = ''pick'', success = False, data = None,
          error = Some (''Picker failed to start: '' @ e)\<rparr>])"
    using assms(8) by (simp add: step_def startDidFailWithError_def sendError_def)
  have g: "step decode pd (sa\<lparr>pendingCommand := None, pickerPresented := False\<rparr>)
       (PickerDidUpdate fb) =
       (sa\<lparr>currentFilter := Some fb, currentWindowID := ?w,
           pendingCommand := None, pickerPresented := False\<rparr>, [?pick])"
    using assms(8) by (simp add: step_def didUpdateWith_idle sendSuccess_def)
  from k same d r have mid:
    "\<exists>k. pendingCommand sa = Some k \<and> action k = ''scan'' \<and>
        ((\<forall>x \<in> set evs. \<not> readsScan decode (snd x)) \<longrightarrow> k = c) \<and>
        (\<exists>r. run decode sa
                ((pd, PickerDidUpdate fb) #
                 replicate (Suc (length (inFlight sa))) (pe, TaskFinishes)) =
               (sa\<lparr>currentFilter := Some fb, currentWindowID := ?w,
                   pendingCommand := None, pickerPresented := False, inFlight := []\<rparr>,
                ?pick # concat (map (scanTask pe ?sb) (inFlight sa)) @ [r]) \<and>
              type r = ''scan'' \<and> scanTask pe ?sb (k, fb) = [r])"
    by blast
  show ?thesis
    using a mid e f g by blast
qed

text \<open>
  C4 on a worker holding the sample window: the lines for \<open>scan\<close> and \<open>pick\<close> with the
  capture finishing between them, then the picker's success and the second capture.
\<close>

theorem stale_scan_after_pick_witness:
  "currentFilter (initialDelegate\<lparr>currentFilter := Some sampleFilter\<rparr>) = Some sampleFilter \<and>
   \<not> terminated (initialDelegate\<lparr>currentFilter := Some sampleFilter\<rparr>) \<and>
   scanLine \<noteq> [] \<and> referenceDecode scanLine = Some scanCommand \<and>
   action scanCommand = ''scan'' \<and>
   \<not> pickerOutcome TaskFinishes \<and> \<not> pickerOutcome (StdinLine pickLine) \<and>
   run referenceDecode (initialDelegate\<lparr>currentFilter := Some sampleFilter\<rparr>)
     [(samplePlatform, StdinLine scanLine), (samplePlatform, TaskFinishes),
      (samplePlatform, StdinLine pickLine)] =
   (initialDelegate\<lparr>currentFilter := Some sampleFilter, pendingCommand := Some scanCommand,
      pickerPresented := True\<rparr>,
    [sampleScanSuccess]) \<and>
   snd (run referenceDecode
          (initialDelegate\<lparr>currentFilter := Some sampleFilter,
             pendingCommand := Some scanCommand, pickerPresented := True\<rparr>)
          [(samplePlatform, PickerDidUpdate sampleFilter), (samplePlatform, TaskFinishes)]) =
     [samplePickSuccess, sampleScanSuccess]"
proof -
  let ?s = "initialDelegate\<lparr>currentFilter := Some sampleFilter\<rparr>"
  let ?sa = "initialDelegate\<lparr>currentFilter := Some sampleFilter,
               pendingCommand := Some scanCommand, pickerPresented := True\<rparr>"
  let ?evs = "[(samplePlatform, TaskFinishes), (samplePlatform, StdinLine pickLine)]"
  have h1: "currentFilter ?s = Some sampleFilter" by simp
  have h2: "\<not> terminated ?s" by (simp add: initialDelegate_def)
  have h3: "scanLine \<noteq> []" by (simp add: scanLine_def)
  have h4: "referenceDecode scanLine = Some scanCommand" by (rule referenceDecode_scanLine)
  have h5: "action scanCommand = ''scan''" by (simp add: scanCommand_def)
  have h6: "\<forall>x \<in> set ?evs. \<not> pickerOutcome (snd x)" by simp
  have h7: "run referenceDecode ?s ((samplePlatform, StdinLine scanLine) # ?evs) =
              (?sa, [sampleScanSuccess])"
    by (rule sample_scan_then_pick)
  have h8: "\<not> terminated ?sa" by (simp add: initialDelegate_def)
  have idle: "inFlight ?sa = []" by (simp add: initialDelegate_def)
  note th = stale_scan_after_pick [where s = ?s and fa = sampleFilter and la = scanLine
        and decode = referenceDecode and c = scanCommand and evs = ?evs
        and pa = samplePlatform and sa = ?sa and out = "[sampleScanSuccess]"
        and pd = samplePlatform and pe = samplePlatform and fb = sampleFilter
        and e = "''denied''", OF h1 h2 h3 h4 h5 h6 h7 h8]
  from th obtain k r where
    r: "run referenceDecode ?sa
          ((samplePlatform, PickerDidUpdate sampleFilter) #
           replicate (Suc (length (inFlight ?sa))) (samplePlatform, TaskFinishes)) =
        (?sa\<lparr>currentFilter := Some sampleFilter,
             currentWindowID := findWindowID samplePlatform (contentRect sampleFilter),
             pendingCommand := None, pickerPresented := False, inFlight := []\<rparr>,
         \<lparr>type = ''pick'', success = True,
           data = Some (windowSelected
             \<lparr>windowId = findWindowID samplePlatform (contentRect sampleFilter), appName = None,
              windowTitle = None,
              selectedBounds = Some (boundsOfRect (contentRect sampleFilter))\<rparr>),
           error = None\<rparr> #
         concat (map (scanTask samplePlatform
                        (?sa\<lparr>currentFilter := Some sampleFilter,
                             currentWindowID :=
                               findWindowID samplePlatform (contentRect sampleFilter)\<rparr>))
                   (inFlight ?sa)) @ [r])"
    and t: "scanTask samplePlatform
              (?sa\<lparr>currentFilter := Some sampleFilter,
                   currentWindowID := findWindowID samplePlatform (contentRect sampleFilter)\<rparr>)
              (k, sampleFilter) = [r]"
    by blast
  from t have rr: "r = sampleScanSuccess" by (simp add: sample_scanTask)
  have rep: "replicate (Suc (length (inFlight ?sa))) (samplePlatform, TaskFinishes) =
             [(samplePlatform, TaskFinishes)]"
    by (simp add: idle)
  have "snd (run referenceDecode ?sa
          [(samplePlatform, PickerDidUpdate sampleFilter), (samplePlatform, TaskFinishes)]) =
        [samplePickSuccess, sampleScanSuccess]"
    using r unfolding rep idle rr sample_pick_response by simp
  then show ?thesis
    using h1 h2 h3 h4 h5 h7 by simp
qed

text \<open>
  Claim C4 as stated fails when a cancelled pick comes between the scan and the successful
  pick: the cancellation clears the pending command, and the later successful pick prints
  its \<open>pick\<close> response and no \<open>scan\<close> response.
\<close>

theorem stale_scan_cleared_by_cancel_counterexample:
  "pendingCommand (fst (run referenceDecode (initialDelegate\<lparr>currentFilter := Some sampleFilter\<rparr>)
     [(samplePlatform, StdinLine scanLine), (samplePlatform, TaskFinishes),
      (samplePlatform, StdinLine pickLine), (samplePlatform, PickerDidCancel)])) = None \<and>
   snd (run referenceDecode (initialDelegate\<lparr>currentFilter := Some sampleFilter\<rparr>)
     [(samplePlatform, StdinLine scanLine), (samplePlatform, TaskFinishes),
      (samplePlatform, StdinLine pickLine), (samplePlatform, PickerDidCancel),
      (samplePlatform, StdinLine pickLine), (samplePlatform, PickerDidUpdate sampleFilter),
      (samplePlatform, TaskFinishes)]) =
     [sampleScanSuccess, samplePickCancelled, samplePickSuccess]"
proof -
  let ?s = "initialDelegate\<lparr>currentFilter := Some sampleFilter\<rparr>"
  let ?sa = "initialDelegate\<lparr>currentFilter := Some sampleFilter,
               pendingCommand := Some scanCommand, pickerPresented := True\<rparr>"
  let ?sb = "initialDelegate\<lparr>currentFilter := Some sampleFilter,
               pendingCommand := None, pickerPresented := False\<rparr>"
  let ?sc = "initialDelegate\<lparr>currentFilter := Some sampleFilter,
               pendingCommand := None, pickerPresented := True\<rparr>"
  let ?sd = "initialDelegate\<lparr>currentFilter := Some sampleFilter,
               currentWindowID := Some 42, pendingCommand := None, pickerPresented := False\<rparr>"
  have a: "step referenceDecode samplePlatform ?sa PickerDidCancel = (?sb, [samplePickCancelled])"
    by (simp add: step_def didCancel_def sendError_def samplePickCancelled_def
                  initialDelegate_def)
  have b: "step referenceDecode samplePlatform ?sb (StdinLine pickLine) = (?sc, [])"
    using referenceDecode_pickLine
    by (simp add: step_def readStdin_line_def handleCommand_def showPicker_def pickLine_def
                  pickCommand_def initialDelegate_def)
  have c: "step referenceDecode samplePlatform ?sc (PickerDidUpdate sampleFilter) =
             (?sd, [samplePickSuccess])"
    unfolding sample_pick_response [symmetric]
    by (simp add: step_def didUpdateWith_idle sendSuccess_def sample_findWindowID
                  initialDelegate_def)
  have d: "step referenceDecode samplePlatform ?sd TaskFinishes = (?sd, [])"
    by (simp add: step_def initialDelegate_def)
  have split1: "[(samplePlatform, StdinLine scanLine), (samplePlatform, TaskFinishes),
      (samplePlatform, StdinLine pickLine), (samplePlatform, PickerDidCancel)] =
      [(samplePlatform, StdinLine scanLine), (samplePlatform, TaskFinishes),
       (samplePlatform, StdinLine pickLine)] @ [(samplePlatform, PickerDidCancel)]"
    by simp
  have split2: "[(samplePlatform, StdinLine scanLine), (samplePlatform, TaskFinishes),
      (samplePlatform, StdinLine pickLine), (samplePlatform, PickerDidCancel),
      (samplePlatform, StdinLine pickLine), (samplePlatform, PickerDidUpdate sampleFilter),
      (samplePlatform, TaskFinishes)] =
      [(samplePlatform, StdinLine scanLine), (samplePlatform, TaskFinishes),
       (samplePlatform, StdinLine pickLine)] @
      [(samplePlatform, PickerDidCancel), (samplePlatform, StdinLine pickLine),
       (samplePlatform, PickerDidUpdate sampleFilter), (samplePlatform, TaskFinishes)]"
    by simp
  have tail1: "run referenceDecode ?sa [(samplePlatform, PickerDidCancel)] =
                 (?sb, [samplePickCancelled])"
    using a by simp
  have tail2: "run referenceDecode ?sa
                 [(samplePlatform, PickerDidCancel), (samplePlatform, StdinLine pickLine),
                  (samplePlatform, PickerDidUpdate sampleFilter), (samplePlatform, TaskFinishes)] =
                 (?sd, [samplePickCancelled, samplePickSuccess])"
    using a b c d by simp
  have one: "pendingCommand (fst (run referenceDecode ?s
     [(samplePlatform, StdinLine scanLine), (samplePlatform, TaskFinishes),
      (samplePlatform, StdinLine pickLine), (samplePlatform, PickerDidCancel)])) = None"
    unfolding split1 run_append sample_scan_then_pick using tail1 by simp
  have two: "snd (run referenceDecode ?s
     [(samplePlatform, StdinLine scanLine), (samplePlatform, TaskFinishes),
      (samplePlatform, StdinLine pickLine), (samplePlatform, PickerDidCancel),
      (samplePlatform, StdinLine pickLine), (samplePlatform, PickerDidUpdate sampleFilter),
      (samplePlatform, TaskFinishes)]) =
     [sampleScanSuccess, samplePickCancelled, samplePickSuccess]"
    unfolding split2 run_append sample_scan_then_pick using tail2 by simp
  show ?thesis using one two by blast
qed

subsection \<open>Lines that are not commands\<close>

text \<open>
  Claim C7, amended. An empty line is skipped: nothing is printed. A line that is not
  empty and does not decode as a \<open>Command\<close> gets the \<open>error\<close> response
  "Invalid JSON command"; a line that decodes to a command whose action is none of
  \<open>pick\<close>, \<open>scan\<close>, \<open>quit\<close> gets the \<open>error\<close> response "Unknown action: " followed by
  the action. In all three cases the worker's state is unchanged.
\<close>

theorem line_errors_leave_state:
  "(line = [] \<longrightarrow> readStdin_line decode line s = (s, [])) \<and>
   (line \<noteq> [] \<and> decode line = None \<longrightarrow>
      readStdin_line decode line s =
        (s, [\<lparr>type = ''error'', success = False, data = None,
               error = Some ''Invalid JSON command''\<rparr>])) \<and>
   (line \<noteq> [] \<and> decode line = Some c \<and>
    action c \<noteq> ''pick'' \<and> action c \<noteq> ''scan'' \<and> action c \<noteq> ''quit'' \<longrightarrow>
      readStdin_line decode line s =
        (s, [\<lparr>type = ''error'', success = False, data = None,
               error = Some (''Unknown action: '' @ action c)\<rparr>]))"
  by (simp add: readStdin_line_def handleCommand_def sendError_def)

text \<open>
  C7 on the lines \<open>{"action":"foo"}\<close> and \<open>{"action":\<close>.
\<close>

theorem line_errors_leave_state_witness:
  "fooLine \<noteq> [] \<and> referenceDecode fooLine = Some fooCommand \<and>
   brokenLine \<noteq> [] \<and> referenceDecode brokenLine = None \<and>
   readStdin_line referenceDecode fooLine initialDelegate =
     (initialDelegate,
      [\<lparr>type = ''error'', success = False, data = None,
        error = Some ''Unknown action: foo''\<rparr>]) \<and>
   readStdin_line referenceDecode brokenLine initialDelegate =
     (initialDelegate,
      [\<lparr>type = ''error'', success = False, data = None,
        error = Some ''Invalid JSON command''\<rparr>])"
proof -
  have h1: "fooLine \<noteq> []" by (simp add: fooLine_def)
  have h2: "brokenLine \<noteq> []" by (simp add: brokenLine_def)
  have h3: "action fooCommand = ''foo''" by (simp add: fooCommand_def)
  from line_errors_leave_state [of fooLine referenceDecode initialDelegate fooCommand]
       line_errors_leave_state [of brokenLine referenceDecode initialDelegate fooCommand]
  show ?thesis
    using h1 h2 h3 referenceDecode_fooLine referenceDecode_brokenLine by simp
qed

text \<open>
  Claim C7 as stated fails on the empty line: it does not decode as a command, and the
  worker prints no response for it.
\<close>

theorem empty_line_counterexample:
  "referenceDecode [] = None \<and>
   readStdin_line referenceDecode [] initialDelegate = (initialDelegate, [])"
  using referenceDecode_empty by (simp add: readStdin_line_def)

subsection \<open>Every response carries data or an error, never both\<close>

text \<open>
  Claim C9. The \<open>ready\<close> response printed at launch and every response printed in any
  run of the worker, from any state, under any decoder and platform, has \<open>data\<close> and no
  \<open>error\<close> when \<open>success\<close> is true, and \<open>error\<close> and no \<open>data\<close> when it is false.
\<close>

theorem responses_exactly_one_of:
  "(\<forall>r \<in> set (snd applicationDidFinishLaunching). exactlyOneOf r) \<and>
   (\<forall>r \<in> set (snd (run decode s evs)). exactlyOneOf r)"
  by (auto simp: applicationDidFinishLaunching_def
           dest: sendSuccess_exactlyOneOf run_exactlyOneOf)

text \<open>
  C9 on the sample run, which prints a \<open>pick\<close>, a \<open>scan\<close> and an \<open>error\<close> response.
\<close>

theorem responses_exactly_one_of_witness:
  "list_all exactlyOneOf (snd (run referenceDecode initialDelegate
     [(samplePlatform, StdinLine scanLine), (samplePlatform, PickerDidUpdate sampleFilter),
      (samplePlatform, TaskFinishes), (samplePlatform, StdinLine fooLine)])) \<and>
   map type (snd (run referenceDecode initialDelegate
     [(samplePlatform, StdinLine scanLine), (samplePlatform, PickerDidUpdate sampleFilter),
      (samplePlatform, TaskFinishes), (samplePlatform, StdinLine fooLine)])) =
   [''pick'', ''scan'', ''error'']"
  using responses_exactly_one_of [of referenceDecode initialDelegate
      "[(samplePlatform, StdinLine scanLine), (samplePlatform, PickerDidUpdate sampleFilter),
        (samplePlatform, TaskFinishes), (samplePlatform, StdinLine fooLine)]"]
    sample_run_types
  by (simp add: list_all_iff)

section \<open>Properties of the codec\<close>

lemma decode_Strings_map: "decode_Strings (map JString ls) = Some ls"
  by (induction ls) simp_all

lemma decodeCommand_commandObject: "decodeCommand (commandObject c) = Some c"
  by (cases "saveTo c"; cases "languages c")
     (simp_all add: decodeCommand_def commandObject_def optionMembers_def
                    decodeIfPresent_String_def decodeIfPresent_Strings_def decode_Strings_map)

lemma bridge_objects:
  "pickObject = commandObject \<lparr>action = ''pick'', languages = None, saveTo = None\<rparr>"
  "quitObject = commandObject \<lparr>action = ''quit'', languages = None, saveTo = None\<rparr>"
  "scanObject None = commandObject \<lparr>action = ''scan'', languages = None, saveTo = None\<rparr>"
  "scanObject (Some options) =
     commandObject \<lparr>action = ''scan'', languages = opt_languages options,
                    saveTo = opt_saveTo options\<rparr>"
  by (simp_all add: pickObject_def quitObject_def scanObject_def commandObject_def
                    optionMembers_def)

lemma readLine_terminated:
  assumes "CHR 0x0A \<notin> set line" and "line \<noteq> []" and "last line \<noteq> CHR 0x0D"
  shows "readLine (line @ [CHR 0x0A]) = Some (line, [])"
proof -
  have t: "takeWhile (\<lambda>c. c \<noteq> CHR 0x0A) (line @ [CHR 0x0A]) = line"
    using assms(1) by (subst takeWhile_append2) auto
  have d: "dropWhile (\<lambda>c. c \<noteq> CHR 0x0A) (line @ [CHR 0x0A]) = [CHR 0x0A]"
    using assms(1) by (subst dropWhile_append2) auto
  show ?thesis
    using assms(2,3) by (simp add: readLine_def t d Let_def)
qed

text \<open>
  Claim C8. Let the text layer print the object of a command \<open>c\<close> on one line (no line
  feed inside, not empty, no carriage return at its end) and read that text back as the
  same JSON value. Then \<open>sendCommand\<close> writes that text and a line feed, \<open>readLine\<close>
  gives the text back, and decoding it yields a command with the same \<open>action\<close>, the same
  \<open>languages\<close> in the same order and the same \<open>saveTo\<close>, so that the worker handles
  \<open>c\<close> itself. This holds for every action, the three known ones included.
\<close>

theorem command_round_trip:
  assumes "parse (stringify (commandObject c)) = Some (commandObject c)"
    and "CHR 0x0A \<notin> set (stringify (commandObject c))"
    and "stringify (commandObject c) \<noteq> []"
    and "last (stringify (commandObject c)) \<noteq> CHR 0x0D"
  shows
    "sendCommand stringify True (commandObject c) =
       Inr (stringify (commandObject c) @ [CHR 0x0A]) \<and>
     readLine (stringify (commandObject c) @ [CHR 0x0A]) =
       Some (stringify (commandObject c), []) \<and>
     (\<exists>c'. jsonDecoder parse (stringify (commandObject c)) = Some c' \<and>
           action c' = action c \<and> languages c' = languages c \<and> saveTo c' = saveTo c) \<and>
     readStdin_line (jsonDecoder parse) (stringify (commandObject c)) s = handleCommand c s"
proof -
  have a: "jsonDecoder parse (stringify (commandObject c)) = Some c"
    using assms(1) by (simp add: jsonDecoder_def decodeCommand_commandObject)
  have b: "readLine (stringify (commandObject c) @ [CHR 0x0A]) =
             Some (stringify (commandObject c), [])"
    using assms(2,3,4) by (rule readLine_terminated)
  show ?thesis
    using a b assms(3) by (simp add: sendCommand_def readStdin_line_def)
qed

text \<open>
  C8 under the reference text layer, on a scan command with two languages and a path.
\<close>

lemma fullCommand_text:
  \<open>stringifyRef (commandObject fullCommand) =
     ''{"action":"scan","saveTo":"/tmp/shot.png","languages":["ja","en"]}''\<close>
  by code_simp

theorem command_round_trip_witness:
  \<open>parseRef (stringifyRef (commandObject fullCommand)) = Some (commandObject fullCommand) \<and>
   CHR 0x0A \<notin> set (stringifyRef (commandObject fullCommand)) \<and>
   stringifyRef (commandObject fullCommand) \<noteq> [] \<and>
   last (stringifyRef (commandObject fullCommand)) \<noteq> CHR 0x0D \<and>
   sendCommand stringifyRef True (commandObject fullCommand) =
     Inr (''{"action":"scan","saveTo":"/tmp/shot.png","languages":["ja","en"]}'' @ [CHR 0x0A]) \<and>
   referenceDecode ''{"action":"scan","saveTo":"/tmp/shot.png","languages":["ja","en"]}'' =
     Some fullCommand\<close>
proof -
  have h1: "parseRef (stringifyRef (commandObject fullCommand)) = Some (commandObject fullCommand)"
    by code_simp
  have h2: "CHR 0x0A \<notin> set (stringifyRef (commandObject fullCommand))"
    unfolding fullCommand_text by simp
  have h3: "stringifyRef (commandObject fullCommand) \<noteq> []"
    unfolding fullCommand_text by simp
  have h4: "last (stringifyRef (commandObject fullCommand)) \<noteq> CHR 0x0D"
    unfolding fullCommand_text by simp
  from command_round_trip [where parse = parseRef and stringify = stringifyRef, OF h1 h2 h3 h4]
  obtain c' where c': "jsonDecoder parseRef (stringifyRef (commandObject fullCommand)) = Some c'"
      "action c' = action fullCommand" "languages c' = languages fullCommand"
      "saveTo c' = saveTo fullCommand"
    by blast
  then have "c' = fullCommand" by (cases c'; cases fullCommand) simp
  with c' have "referenceDecode (stringifyRef (commandObject fullCommand)) = Some fullCommand"
    by (simp add: referenceDecode_def)
  then show ?thesis
    using h1 h2 h3 h4 by (simp add: sendCommand_def fullCommand_text)
qed

subsection \<open>The reference text layer round-trips every command\<close>

text \<open>
  The hypotheses of C8 hold of the reference printer and reader for every command: the
  reader, given the length of the text plus one as fuel, reads the printed object back,
  and the printed text is one line. So under the reference layer the round trip needs no
  hypothesis.
\<close>

lemma hexVal_hexDigit: "n < 16 \<Longrightarrow> hexVal (hexDigit n) = Some n"
proof -
  assume "n < 16"
  then consider "n < 10" | "10 \<le> n" "n < 16" by linarith
  then show ?thesis
  proof cases
    case 1
    then show ?thesis
      by (simp add: hexVal_def hexDigit_def Let_def)
  next
    case 2
    then show ?thesis
      by (simp add: hexVal_def hexDigit_def Let_def)
  qed
qed

lemma hexVal_zero: "hexVal (CHR ''0'') = Some 0"
  by (simp add: hexVal_def)

lemma unicodeEscape_control:
  assumes "(of_char c :: nat) < 32"
  shows "unicodeEscape (CHR ''0'') (CHR ''0'') (hexDigit (of_char c div 16))
           (hexDigit (of_char c mod 16)) = Some c"
proof -
  have a: "(of_char c :: nat) div 16 < 16" using assms by simp
  have b: "(of_char c :: nat) mod 16 < 16" by simp
  have c: "((0 * 16 + 0) * 16 + (of_char c :: nat) div 16) * 16 + of_char c mod 16 = of_char c"
    by simp
  show ?thesis
    using assms
    by (simp add: unicodeEscape_def hexVal_zero hexVal_hexDigit [OF a] hexVal_hexDigit [OF b])
qed

lemma escapeChar_named:
  "escapeChar (CHR 0x22) = [CHR 0x5C, CHR 0x22]"
  "escapeChar (CHR 0x5C) = [CHR 0x5C, CHR 0x5C]"
  "escapeChar (CHR 0x08) = [CHR 0x5C, CHR ''b'']"
  "escapeChar (CHR 0x0C) = [CHR 0x5C, CHR ''f'']"
  "escapeChar (CHR 0x0A) = [CHR 0x5C, CHR ''n'']"
  "escapeChar (CHR 0x0D) = [CHR 0x5C, CHR ''r'']"
  "escapeChar (CHR 0x09) = [CHR 0x5C, CHR ''t'']"
  by (simp_all add: escapeChar_def)

lemma parseChars_escaped:
  "parseChars (concat (map escapeChar s) @ CHR 0x22 # rest) = Some (s, rest)"
proof (induction s)
  case Nil
  then show ?case by (cases rest) simp_all
next
  case (Cons c s)
  obtain t ts where tail: "concat (map escapeChar s) @ CHR 0x22 # rest = t # ts"
    by (cases "concat (map escapeChar s) @ CHR 0x22 # rest") simp_all
  with Cons have ih: "parseChars (t # ts) = Some (s, rest)" by simp
  consider (quote) "c = CHR 0x22" | (bs) "c = CHR 0x5C" | (b) "c = CHR 0x08" | (f) "c = CHR 0x0C"
    | (n) "c = CHR 0x0A" | (r) "c = CHR 0x0D" | (t) "c = CHR 0x09"
    | (ctl) "c \<noteq> CHR 0x22" "c \<noteq> CHR 0x5C" "c \<noteq> CHR 0x08" "c \<noteq> CHR 0x0C" "c \<noteq> CHR 0x0A"
        "c \<noteq> CHR 0x0D" "c \<noteq> CHR 0x09" "(of_char c :: nat) < 32"
    | (plain) "c \<noteq> CHR 0x22" "c \<noteq> CHR 0x5C" "\<not> (of_char c :: nat) < 32"
    by (cases "(of_char c :: nat) < 32") auto
  then show ?case
  proof cases
    case ctl
    then have "escapeChar c =
                 [CHR 0x5C, CHR ''u'', CHR ''0'', CHR ''0'',
                  hexDigit (of_char c div 16), hexDigit (of_char c mod 16)]"
      by (simp add: escapeChar_def)
    with ctl ih unicodeEscape_control [of c] show ?thesis
      by (simp add: tail)
  next
    case plain
    then have "escapeChar c = [c]"
      by (auto simp: escapeChar_def)
    with plain ih show ?thesis by (simp add: tail)
  qed (simp_all add: escapeChar_named tail ih unescape_def)
qed


lemma skipWs_keeps: "\<not> isWs c \<Longrightarrow> skipWs (c # cs) = c # cs"
  by (simp add: skipWs_def)

lemma not_isWs_punctuation:
  "\<not> isWs (CHR 0x22)" "\<not> isWs (CHR ''['')" "\<not> isWs (CHR '']'')" "\<not> isWs (CHR ''{'')"
  "\<not> isWs (CHR ''}'')" "\<not> isWs (CHR '','')" "\<not> isWs (CHR '':'')"
  by (simp_all add: isWs_def)

lemma quote_text: "quote s @ rest = CHR 0x22 # concat (map escapeChar s) @ CHR 0x22 # rest"
  by (simp add: quote_def)

lemma parseValue_string: "parseValue (Suc n) (quote s @ rest) = Some (JString s, rest)"
  by (simp add: quote_text skipWs_keeps not_isWs_punctuation parseChars_escaped)

lemma parseElements_strings:
  "ls \<noteq> [] \<Longrightarrow> length ls < n \<Longrightarrow>
   parseElements n (commaSep (map quote ls) @ CHR '']'' # rest) = Some (map JString ls, rest)"
proof (induction ls arbitrary: n)
  case Nil
  then show ?case by simp
next
  case (Cons l ls)
  from Cons.prems obtain m where n: "n = Suc (Suc m)" and m: "length ls \<le> m"
    by (cases n; cases "n - 1") auto
  show ?case
  proof (cases ls)
    case Nil
    then show ?thesis
      by (simp add: n parseValue_string skipWs_keeps not_isWs_punctuation
               del: parseValue.simps)
  next
    case (Cons l' ls')
    have "parseElements (Suc m) (commaSep (map quote ls) @ CHR '']'' # rest) =
          Some (map JString ls, rest)"
      using Cons m by (intro Cons.IH) simp_all
    then show ?thesis
      using Cons
      by (simp add: n parseValue_string skipWs_keeps not_isWs_punctuation
               del: parseValue.simps)
  qed
qed


lemma decode_Strings_Some: "decode_Strings xs = Some ls \<Longrightarrow> xs = map JString ls"
proof (induction xs arbitrary: ls rule: decode_Strings.induct)
  case 1
  then show ?case by simp
next
  case (2 s rest)
  then show ?case by (auto split: option.splits)
qed simp_all

lemma commaSep_quotes_head:
  assumes "ls \<noteq> []"
  shows "\<exists>qs. commaSep (map quote ls) = CHR 0x22 # qs"
proof -
  from assms obtain l ls' where ls: "ls = l # ls'" by (cases ls) auto
  show ?thesis by (cases ls') (simp_all add: ls quote_def)
qed

lemma parseValue_flat:
  assumes "flatValue v" and "fuelFor v \<le> n"
  shows "parseValue n (stringifyRef v @ rest) = Some (v, rest)"
proof (cases v)
  case (JString s)
  with assms obtain m where "n = Suc m" by (cases n) (simp_all add: fuelFor_def)
  with JString show ?thesis by (simp add: parseValue_string del: parseValue.simps)
next
  case (JArray xs)
  with assms obtain ls where xs: "xs = map JString ls"
    by (auto simp: flatValue_def dest: decode_Strings_Some)
  from assms JArray obtain m where n: "n = Suc m" and m: "length xs < m"
    by (cases n) (simp_all add: fuelFor_def)
  show ?thesis
  proof (cases "ls = []")
    case True
    with JArray xs n show ?thesis
      by (simp add: skipWs_keeps not_isWs_punctuation)
  next
    case False
    then obtain qs where q: "commaSep (map quote ls) = CHR 0x22 # qs"
      using commaSep_quotes_head by blast
    have "parseElements m (commaSep (map quote ls) @ CHR '']'' # rest) =
            Some (map JString ls, rest)"
      using False m xs by (intro parseElements_strings) simp_all
    then have "parseElements m (CHR 0x22 # qs @ CHR '']'' # rest) = Some (map JString ls, rest)"
      by (simp add: q)
    with JArray xs n q show ?thesis
      by (simp add: skipWs_keeps not_isWs_punctuation comp_def)
  qed
qed (use assms in \<open>simp_all add: flatValue_def\<close>)


lemma parseMembers_flat:
  "ms \<noteq> [] \<Longrightarrow>
   \<forall>kv \<in> set ms. flatValue (snd kv) \<and> length ms + fuelFor (snd kv) \<le> n \<Longrightarrow>
   parseMembers n
     (commaSep (map (\<lambda>(k, v). quote k @ CHR '':'' # stringifyRef v) ms) @ CHR ''}'' # rest) =
   Some (ms, rest)"
proof (induction ms arbitrary: n)
  case Nil
  then show ?case by simp
next
  case (Cons kv ms)
  obtain k v where kv: "kv = (k, v)" by (cases kv)
  from Cons.prems kv have flat: "flatValue v" and bound: "Suc (length ms) + fuelFor v \<le> n"
    by simp_all
  then obtain m where n: "n = Suc m" and m: "fuelFor v \<le> m"
    by (cases n) simp_all
  have parsed: "parseValue m (stringifyRef v @ r) = Some (v, r)" for r
    using flat m by (rule parseValue_flat)
  show ?case
  proof (cases ms)
    case Nil
    then show ?thesis
      by (simp add: kv n quote_text skipWs_keeps not_isWs_punctuation parseChars_escaped parsed
               del: parseValue.simps)
  next
    case (Cons kv' ms')
    have "\<forall>x \<in> set ms. flatValue (snd x) \<and> length ms + fuelFor (snd x) \<le> m"
      using Cons.prems(2) n by auto
    then have "parseMembers m
        (commaSep (map (\<lambda>(k, v). quote k @ CHR '':'' # stringifyRef v) ms) @ CHR ''}'' # rest) =
        Some (ms, rest)"
      using Cons by (intro Cons.IH) simp_all
    then show ?thesis
      using Cons
      by (simp add: kv n quote_text skipWs_keeps not_isWs_punctuation parseChars_escaped parsed
               del: parseValue.simps)
  qed
qed

lemma parseValue_object:
  assumes "ms \<noteq> []"
    and "\<forall>kv \<in> set ms. flatValue (snd kv) \<and> length ms + fuelFor (snd kv) \<le> n"
  shows "parseValue (Suc n) (stringifyRef (JObject ms) @ rest) = Some (JObject ms, rest)"
proof -
  from assms(1) obtain k v ms' where ms: "ms = (k, v) # ms'" by (cases ms) auto
  have "\<exists>qs. commaSep (map (\<lambda>(k, v). quote k @ CHR '':'' # stringifyRef v) ms) = CHR 0x22 # qs"
    by (cases ms') (simp_all add: ms quote_def)
  then obtain qs where
    q: "commaSep (map (\<lambda>(k, v). quote k @ CHR '':'' # stringifyRef v) ms) = CHR 0x22 # qs"
    by blast
  have "parseMembers n
     (commaSep (map (\<lambda>(k, v). quote k @ CHR '':'' # stringifyRef v) ms) @ CHR ''}'' # rest) =
     Some (ms, rest)"
    using assms by (rule parseMembers_flat)
  then have "parseMembers n (CHR 0x22 # qs @ CHR ''}'' # rest) = Some (ms, rest)"
    by (simp add: q)
  then show ?thesis
    by (simp add: q skipWs_keeps not_isWs_punctuation)
qed


lemma length_commaSep: "\<forall>x \<in> set xs. x \<noteq> [] \<Longrightarrow> length xs \<le> length (commaSep xs)"
  by (induction xs rule: commaSep.induct) (auto simp: Suc_le_eq)

lemma length_commaSep_quotes: "length ls \<le> length (commaSep (map quote ls))"
  using length_commaSep [of "map quote ls"] by (simp add: quote_def)

lemma length_quote: "length (quote s) = length (concat (map escapeChar s)) + 2"
  by (simp add: quote_def)

lemma commandObject_fuel:
  assumes "commandObject c = JObject ms"
  shows "ms \<noteq> [] \<and>
         (\<forall>kv \<in> set ms. flatValue (snd kv) \<and>
            length ms + fuelFor (snd kv) \<le> length (stringifyRef (commandObject c)))"
proof -
  have ms: "ms = (''action'', JString (action c)) #
                 optionMembers \<lparr>opt_saveTo = saveTo c, opt_languages = languages c\<rparr>"
    using assms by (simp add: commandObject_def)
  have ls: "length ls \<le> length (commaSep (map quote ls))" for ls
    by (rule length_commaSep_quotes)
  show ?thesis
  proof (cases "saveTo c"; cases "languages c")
    fix p ls
    assume "saveTo c = Some p" "languages c = Some ls"
    then show ?thesis
      using ls [of ls] unfolding assms
      by (simp add: ms optionMembers_def flatValue_def fuelFor_def decode_Strings_map
                    length_quote comp_def)
  next
    fix ls
    assume "saveTo c = None" "languages c = Some ls"
    then show ?thesis
      using ls [of ls] unfolding assms
      by (simp add: ms optionMembers_def flatValue_def fuelFor_def decode_Strings_map
                    length_quote comp_def)
  qed (simp_all add: assms ms optionMembers_def flatValue_def fuelFor_def length_quote)
qed

lemma parseRef_commandObject:
  "parseRef (stringifyRef (commandObject c)) = Some (commandObject c)"
proof -
  obtain ms where ms: "commandObject c = JObject ms" by (simp add: commandObject_def)
  from commandObject_fuel [OF ms]
  have "parseValue (Suc (length (stringifyRef (commandObject c))))
          (stringifyRef (JObject ms) @ []) = Some (JObject ms, [])"
    by (intro parseValue_object) simp_all
  then show ?thesis
    by (simp add: parseRef_def ms skipWs_def del: parseValue.simps stringifyRef.simps)
qed


lemma hexDigit_not_newline: "n < 16 \<Longrightarrow> hexDigit n \<noteq> CHR 0x0A"
proof
  assume n: "n < 16" and eq: "hexDigit n = CHR 0x0A"
  from eq have "(of_char (hexDigit n) :: nat) = of_char (CHR 0x0A)" by simp
  with n show False
    by (simp add: hexDigit_def split: if_splits)
qed

lemma escapeChar_no_newline: "CHR 0x0A \<notin> set (escapeChar c)"
proof -
  have "(of_char c :: nat) div 16 < 16" if "(of_char c :: nat) < 32"
    using that by simp
  moreover have "(of_char c :: nat) mod 16 < 16" by simp
  ultimately show ?thesis
    using hexDigit_not_newline [of "of_char c div 16"] hexDigit_not_newline [of "of_char c mod 16"]
    by (auto simp: escapeChar_def)
qed

lemma quote_no_newline: "CHR 0x0A \<notin> set (quote s)"
  using escapeChar_no_newline by (auto simp: quote_def)

lemma commaSep_no_newline:
  "\<forall>x \<in> set xs. CHR 0x0A \<notin> set x \<Longrightarrow> CHR 0x0A \<notin> set (commaSep xs)"
  by (induction xs rule: commaSep.induct) auto

lemma stringifyRef_flat_no_newline:
  assumes "flatValue v"
  shows "CHR 0x0A \<notin> set (stringifyRef v)"
proof (cases v)
  case (JString s)
  then show ?thesis by (simp add: quote_no_newline)
next
  case (JArray xs)
  with assms obtain ls where "xs = map JString ls"
    by (auto simp: flatValue_def dest: decode_Strings_Some)
  with JArray show ?thesis
    using commaSep_no_newline [of "map quote ls"] by (simp add: quote_no_newline comp_def)
qed (use assms in \<open>simp_all add: flatValue_def\<close>)

lemma commandObject_one_line:
  "CHR 0x0A \<notin> set (stringifyRef (commandObject c)) \<and>
   stringifyRef (commandObject c) \<noteq> [] \<and>
   last (stringifyRef (commandObject c)) \<noteq> CHR 0x0D"
proof -
  obtain ms where ms: "commandObject c = JObject ms" by (simp add: commandObject_def)
  have "\<forall>kv \<in> set ms. flatValue (snd kv)"
    using commandObject_fuel [OF ms] by simp
  then have "\<forall>x \<in> set (map (\<lambda>(k, v). quote k @ CHR '':'' # stringifyRef v) ms).
               CHR 0x0A \<notin> set x"
    by (auto simp: quote_no_newline stringifyRef_flat_no_newline)
  then have "CHR 0x0A \<notin> set (commaSep (map (\<lambda>(k, v). quote k @ CHR '':'' # stringifyRef v) ms))"
    by (rule commaSep_no_newline)
  then show ?thesis
    by (simp add: ms)
qed

lemma reference_round_trip:
  "sendCommand stringifyRef True (commandObject c) =
     Inr (stringifyRef (commandObject c) @ [CHR 0x0A]) \<and>
   readLine (stringifyRef (commandObject c) @ [CHR 0x0A]) =
     Some (stringifyRef (commandObject c), []) \<and>
   referenceDecode (stringifyRef (commandObject c)) = Some c"
proof -
  have "readLine (stringifyRef (commandObject c) @ [CHR 0x0A]) =
          Some (stringifyRef (commandObject c), [])"
    using commandObject_one_line [of c] by (intro readLine_terminated) simp_all
  then show ?thesis
    by (simp add: sendCommand_def referenceDecode_def jsonDecoder_def parseRef_commandObject
                  decodeCommand_commandObject)
qed

section \<open>Properties of the bridge\<close>

subsection \<open>scan and an intermediate pick response\<close>

lemma scan_started:
  "scan stringify True options =
     \<lparr>listening = True, timer = Some 30000, promise = Pending,
      written = [stringify (scanObject options) @ [CHR 0x0A]]\<rparr>"
  by (simp add: scan_def sendCommand_def)

lemma scan_handler_ignored:
  "r_type r \<noteq> ''scan'' \<and> (r_type r = ''pick'' \<longrightarrow> r_success r) \<Longrightarrow> emit scan_handler r c = c"
  by (simp add: emit_def scan_handler_def)

lemma deliver_ignored:
  "\<forall>p \<in> set ps. r_type p \<noteq> ''scan'' \<and> (r_type p = ''pick'' \<longrightarrow> r_success p) \<Longrightarrow>
   deliver scan_handler c ps = c"
  by (induction ps arbitrary: c) (simp_all add: scan_handler_ignored)

lemma deliver_append: "deliver handler c (rs @ [r]) = emit handler r (deliver handler c rs)"
  by (induction rs arbitrary: c) simp_all

text \<open>
  Claim C2, amended. Take a call of \<open>scan\<close> that is pending with its handler
  registered, as it is from the moment its command is written, and let responses arrive
  that are neither \<open>scan\<close> responses nor failing \<open>pick\<close> responses (successful
  \<open>pick\<close> responses among them): the call stays as it was, pending and listening. If
  the next response is a failing \<open>pick\<close>, the call rejects at once, with the response's
  error message when it has one that is not empty and with "Window selection cancelled"
  otherwise. If the next response is a successful \<open>scan\<close> with data, the call resolves
  with the recognition result; and it resolves on no other response.
\<close>

theorem scan_intermediate_pick:
  assumes "listening c" and "promise c = Pending"
    and "\<forall>p \<in> set ps. r_type p \<noteq> ''scan'' \<and> (r_type p = ''pick'' \<longrightarrow> r_success p)"
  shows
    "deliver scan_handler c ps = c \<and>
     (r_type r = ''pick'' \<and> \<not> r_success r \<longrightarrow>
        deliver scan_handler c (ps @ [r]) =
          c\<lparr>listening := False, timer := None,
            promise :=
              Rejected (case r_error r of
                          None \<Rightarrow> ''Window selection cancelled''
                        | Some m \<Rightarrow> if m = [] then ''Window selection cancelled'' else m)\<rparr>) \<and>
     (r_type r = ''scan'' \<and> r_success r \<and> r_data r = Some d \<longrightarrow>
        deliver scan_handler c (ps @ [r]) =
          c\<lparr>listening := False, timer := None,
            promise :=
              Resolved \<lparr>scan_imageWidth = d_imageWidth d, scan_imageHeight = d_imageHeight d,
                        scan_observations =
                          (case d_observations d of None \<Rightarrow> [] | Some os \<Rightarrow> os),
                        scan_bounds = d_bounds d\<rparr>\<rparr>) \<and>
     (promise (deliver scan_handler c (ps @ [r])) = Resolved v \<longrightarrow>
        r_type r = ''scan'' \<and> r_success r \<and> r_data r \<noteq> None)"
proof -
  have a: "deliver scan_handler c ps = c"
    using assms(3) by (rule deliver_ignored)
  have b: "deliver scan_handler c (ps @ [r]) = emit scan_handler r c"
    by (simp add: deliver_append a)
  show ?thesis
    unfolding b a using assms(1,2)
    by (auto simp: emit_def scan_handler_def resolve_def reject_def orElse_def Let_def
             split: option.splits bool.splits if_splits)
qed

text \<open>
  C2 on a successful pick followed by a cancelled pick, and followed by a successful scan.
\<close>

theorem scan_intermediate_pick_witness:
  "listening (scan stringifyRef True None) \<and> promise (scan stringifyRef True None) = Pending \<and>
   r_type pickSucceeded \<noteq> ''scan'' \<and> r_type pickSucceeded = ''pick'' \<and> r_success pickSucceeded \<and>
   r_type pickCancelled = ''pick'' \<and> \<not> r_success pickCancelled \<and>
   r_type scanSucceeded = ''scan'' \<and> r_success scanSucceeded \<and>
   promise (deliver scan_handler (scan stringifyRef True None) [pickSucceeded]) = Pending \<and>
   promise (deliver scan_handler (scan stringifyRef True None) [pickSucceeded, pickCancelled]) =
     Rejected ''User cancelled window selection'' \<and>
   promise (deliver scan_handler (scan stringifyRef True None) [pickSucceeded, scanSucceeded]) =
     Resolved \<lparr>scan_imageWidth = Some 800, scan_imageHeight = Some 600, scan_observations = [],
               scan_bounds = Some \<lparr>bounds_x = 100, bounds_y = 100,
                                   bounds_width = 400, bounds_height = 300\<rparr>\<rparr>"
proof -
  let ?c = "scan stringifyRef True None"
  have l: "listening ?c" and q: "promise ?c = Pending"
    by (simp_all add: scan_started)
  have h: "\<forall>p \<in> set [pickSucceeded]. r_type p \<noteq> ''scan'' \<and> (r_type p = ''pick'' \<longrightarrow> r_success p)"
    by (simp add: pickSucceeded_def)
  have d: "r_data scanSucceeded =
             Some \<lparr>d_version = None, d_windowId = None, d_appName = None, d_windowTitle = None,
                   d_bounds = Some \<lparr>bounds_x = 100, bounds_y = 100,
                                    bounds_width = 400, bounds_height = 300\<rparr>,
                   d_imageWidth = Some 800, d_imageHeight = Some 600,
                   d_observations = Some []\<rparr>"
    by (simp add: scanSucceeded_def)
  have t: "r_type pickSucceeded = ''pick''" "r_success pickSucceeded"
    "r_type pickCancelled = ''pick''" "\<not> r_success pickCancelled"
    "r_error pickCancelled = Some ''User cancelled window selection''"
    "r_type scanSucceeded = ''scan''" "r_success scanSucceeded"
    by (simp_all add: pickSucceeded_def pickCancelled_def scanSucceeded_def)
  let ?d = "\<lparr>d_version = None, d_windowId = None, d_appName = None, d_windowTitle = None,
              d_bounds = Some \<lparr>bounds_x = 100, bounds_y = 100,
                               bounds_width = 400, bounds_height = 300\<rparr>,
              d_imageWidth = Some 800, d_imageHeight = Some (600::real),
              d_observations = Some []\<rparr>"
  note cancelled = scan_intermediate_pick [where c = ?c and ps = "[pickSucceeded]"
         and r = pickCancelled, OF l q h]
  note scanned = scan_intermediate_pick [where c = ?c and ps = "[pickSucceeded]"
         and r = scanSucceeded and d = ?d, OF l q h]
  have k1: "promise (deliver scan_handler ?c [pickSucceeded]) = Pending"
    using cancelled q by (simp del: deliver.simps)
  have k2: "promise (deliver scan_handler ?c [pickSucceeded, pickCancelled]) =
              Rejected ''User cancelled window selection''"
    using cancelled t by (simp del: deliver.simps)
  have k3: "promise (deliver scan_handler ?c [pickSucceeded, scanSucceeded]) =
              Resolved \<lparr>scan_imageWidth = Some 800, scan_imageHeight = Some 600,
                        scan_observations = [],
                        scan_bounds = Some \<lparr>bounds_x = 100, bounds_y = 100,
                                            bounds_width = 400, bounds_height = 300\<rparr>\<rparr>"
    using scanned t d by (simp del: deliver.simps)
  show ?thesis using l q k1 k2 k3 t by (simp del: deliver.simps)
qed

text \<open>
  Claim C2 as stated fails on a failing \<open>pick\<close> response whose error message is the empty
  string: the call rejects with "Window selection cancelled", not with that message.
\<close>

theorem scan_pick_message_counterexample:
  "r_type pickFailedSilently = ''pick'' \<and> \<not> r_success pickFailedSilently \<and>
   r_error pickFailedSilently = Some [] \<and>
   promise (deliver scan_handler (scan stringifyRef True None) [pickFailedSilently]) =
     Rejected ''Window selection cancelled'' \<and>
   promise (deliver scan_handler (scan stringifyRef True None) [pickFailedSilently]) \<noteq>
     Rejected []"
  by (simp add: pickFailedSilently_def scan_started emit_def scan_handler_def reject_def
                orElse_def)

subsection \<open>pick and its timeout\<close>

lemma pick_started:
  "pick stringify True =
     \<lparr>listening = True, timer = Some 60000, promise = Pending,
      written = [stringify pickObject @ [CHR 0x0A]]\<rparr>"
  by (simp add: pick_def sendCommand_def)

lemma pick_timed_out:
  "pick_onTimeout (pick stringify True) =
     \<lparr>listening = False, timer = None, promise = Rejected ''Window selection timed out'',
      written = [stringify pickObject @ [CHR 0x0A]]\<rparr>"
  by (simp add: pick_started pick_onTimeout_def reject_def)

lemma timeline_after_timeout:
  "timeline pick_handler pick_onTimeout (pick_onTimeout (pick stringify True)) arrivals t =
   pick_onTimeout (pick stringify True)"
  by (induction arrivals) (auto simp: pick_timed_out advance_def emit_def)

lemma timeline_before_timeout:
  assumes "\<forall>a \<in> set arrivals. r_type (snd a) = ''pick'' \<longrightarrow> 60000 < fst a" and "t < 60000"
  shows "timeline pick_handler pick_onTimeout (pick stringify True) arrivals t =
         pick stringify True"
  using assms
proof (induction arrivals)
  case Nil
  then show ?case by (simp add: pick_started advance_def)
next
  case (Cons a arrivals)
  obtain ta r where a: "a = (ta, r)" by (cases a)
  show ?case
  proof (cases "ta \<le> t")
    case True
    with Cons.prems a have "r_type r \<noteq> ''pick''" by auto
    then have "emit pick_handler r (advance pick_onTimeout ta (pick stringify True)) =
               pick stringify True"
      using True Cons.prems by (simp add: pick_started advance_def emit_def pick_handler_def)
    with Cons a True show ?thesis by simp
  next
    case False
    with Cons.prems a show ?thesis by (simp add: pick_started advance_def)
  qed
qed

lemma timeline_at_timeout:
  assumes "\<forall>a \<in> set arrivals. r_type (snd a) = ''pick'' \<longrightarrow> 60000 < fst a" and "60000 \<le> t"
  shows "timeline pick_handler pick_onTimeout (pick stringify True) arrivals t =
         pick_onTimeout (pick stringify True)"
  using assms
proof (induction arrivals)
  case Nil
  then show ?case by (simp add: pick_started advance_def)
next
  case (Cons a arrivals)
  obtain ta r where a: "a = (ta, r)" by (cases a)
  show ?case
  proof (cases "ta \<le> t")
    case late: False
    with Cons.prems a show ?thesis by (simp add: pick_started advance_def)
  next
    case True
    show ?thesis
    proof (cases "ta < 60000")
      case early: True
      with Cons.prems a have "r_type r \<noteq> ''pick''" by auto
      then have "emit pick_handler r (advance pick_onTimeout ta (pick stringify True)) =
                 pick stringify True"
        using early by (simp add: pick_started advance_def emit_def pick_handler_def)
      with Cons a True show ?thesis by simp
    next
      case False
      then have "advance pick_onTimeout ta (pick stringify True) =
                 pick_onTimeout (pick stringify True)"
        by (simp add: pick_started advance_def)
      then have "emit pick_handler r (advance pick_onTimeout ta (pick stringify True)) =
                 pick_onTimeout (pick stringify True)"
        by (simp add: pick_timed_out emit_def)
      with a True show ?thesis by (simp add: timeline_after_timeout)
    qed
  qed
qed

text \<open>
  Claim C10, amended. Take a call of \<open>pick\<close> on a started bridge, and let no \<open>pick\<close>
  response arrive in the first 60000 milliseconds. At every time before 60000 the call is
  as it started, pending; at 60000 and at every later time it is rejected with "Window
  selection timed out", its handler removed and its timer gone, whatever arrived after the
  timeout: a late \<open>pick\<close> response changes nothing.
\<close>

theorem pick_times_out_at_60s:
  assumes "\<forall>a \<in> set arrivals. r_type (snd a) = ''pick'' \<longrightarrow> 60000 < fst a"
  shows
    "timeline pick_handler pick_onTimeout (pick stringify True) arrivals t =
       (if t < 60000 then pick stringify True
        else (pick stringify True)
               \<lparr>listening := False, timer := None,
                promise := Rejected ''Window selection timed out''\<rparr>) \<and>
     promise (pick stringify True) = Pending"
  using timeline_before_timeout [OF assms] timeline_at_timeout [OF assms]
  by (simp add: pick_timed_out) (simp add: pick_started)

text \<open>
  C10 on a scan response after one second and a pick response after 61 seconds.
\<close>

theorem pick_times_out_at_60s_witness:
  "r_type (snd (1000, scanSucceeded)) \<noteq> ''pick'' \<and>
   r_type (snd (61000, pickSucceeded)) = ''pick'' \<and> (60000::nat) < fst (61000, pickSucceeded) \<and>
   promise (timeline pick_handler pick_onTimeout (pick stringifyRef True) lateArrivals 59999) =
     Pending \<and>
   promise (timeline pick_handler pick_onTimeout (pick stringifyRef True) lateArrivals 60000) =
     Rejected ''Window selection timed out'' \<and>
   promise (timeline pick_handler pick_onTimeout (pick stringifyRef True) lateArrivals 70000) =
     Rejected ''Window selection timed out'' \<and>
   \<not> listening (timeline pick_handler pick_onTimeout (pick stringifyRef True) lateArrivals 70000)"
proof -
  have h: "\<forall>a \<in> set lateArrivals. r_type (snd a) = ''pick'' \<longrightarrow> 60000 < fst a"
    by (simp add: lateArrivals_def scanSucceeded_def)
  note th = pick_times_out_at_60s [where arrivals = lateArrivals and stringify = stringifyRef, OF h]
  show ?thesis
    using th [of 59999] th [of 60000] th [of 70000]
    by (simp add: scanSucceeded_def pickSucceeded_def)
qed

text \<open>
  Claim C10 as stated fails on a bridge that was not started: \<open>sendCommand\<close> throws
  inside the promise's executor, and the call is rejected at time 0 with "CLI not started".
\<close>

theorem pick_not_started_counterexample:
  "promise (timeline pick_handler pick_onTimeout (pick stringifyRef False) [] 0) =
     Rejected ''CLI not started''"
  by (simp add: pick_def sendCommand_def advance_def)

section \<open>Properties of the renderer\<close>

text \<open>
  \<open>atan2\<close> as defined above is the angle of the point \<open>(x, y)\<close>: it lies in
  \<open>(-\<pi>, \<pi>]\<close>, and its cosine and sine are those of the point's direction.
\<close>

lemma atan2_bounds: "- pi < atan2 y x \<and> atan2 y x \<le> pi"
proof -
  have a: "- (pi / 2) < arctan (y / x)" by (rule arctan_lbound)
  have b: "arctan (y / x) < pi / 2" by (rule arctan_ubound)
  have c: "0 < arctan (y / x)" if "x < 0" "y < 0"
    using that by (simp add: zero_less_divide_iff)
  have d: "arctan (y / x) \<le> 0" if "x < 0" "0 \<le> y"
    using that by (simp add: divide_le_0_iff)
  have "0 < pi" by simp
  then show ?thesis
    using a b c d unfolding atan2_def by (auto simp: not_less)
qed

lemma cos_sin_arctan_ratio:
  fixes x y :: real
  assumes "0 < x"
  shows "cos (arctan (y / x)) = x / sqrt (x\<^sup>2 + y\<^sup>2)"
    and "sin (arctan (y / x)) = y / sqrt (x\<^sup>2 + y\<^sup>2)"
proof -
  have "1 + (y / x)\<^sup>2 = (x\<^sup>2 + y\<^sup>2) / x\<^sup>2"
    using assms by (simp add: field_simps power2_eq_square)
  then have s: "sqrt (1 + (y / x)\<^sup>2) = sqrt (x\<^sup>2 + y\<^sup>2) / x"
    using assms by (simp add: real_sqrt_divide)
  have pos: "0 < sqrt (x\<^sup>2 + y\<^sup>2)"
    using assms by (simp add: sum_power2_gt_zero_iff)
  show "cos (arctan (y / x)) = x / sqrt (x\<^sup>2 + y\<^sup>2)"
    using assms pos by (simp add: cos_arctan s)
  show "sin (arctan (y / x)) = y / sqrt (x\<^sup>2 + y\<^sup>2)"
    using assms pos by (simp add: sin_arctan s)
qed

lemma atan2_polar:
  assumes "x \<noteq> 0 \<or> y \<noteq> 0"
  shows "cos (atan2 y x) = x / sqrt (x\<^sup>2 + y\<^sup>2)"
    and "sin (atan2 y x) = y / sqrt (x\<^sup>2 + y\<^sup>2)"
proof -
  have neg: "cos (arctan (y / x)) = - x / sqrt (x\<^sup>2 + y\<^sup>2) \<and>
             sin (arctan (y / x)) = - y / sqrt (x\<^sup>2 + y\<^sup>2)" if "x < 0"
  proof -
    have "y / x = (- y) / (- x)" by simp
    moreover have "0 < - x" using that by simp
    ultimately show ?thesis
      using cos_sin_arctan_ratio [of "- x" "- y"] by simp
  qed
  have zero: "sqrt (y\<^sup>2) = \<bar>y\<bar>" by simp
  show "cos (atan2 y x) = x / sqrt (x\<^sup>2 + y\<^sup>2)"
    using assms neg cos_sin_arctan_ratio(1) [of x y]
    by (auto simp: atan2_def not_less cos_diff cos_add)
  show "sin (atan2 y x) = y / sqrt (x\<^sup>2 + y\<^sup>2)"
    using assms neg cos_sin_arctan_ratio(2) [of x y]
    by (auto simp: atan2_def not_less sin_diff sin_add)
qed

lemma renderObservation_None:
  "renderObservation scrollWidth W H obs = None \<longleftrightarrow>
   rect_width (boundingBox obs) * W < 10 \<or> rect_height (boundingBox obs) * H < 8"
  by (simp add: renderObservation_def Let_def)

lemma fitTextToWidth_style:
  "style_left (fitTextToWidth scrollWidth el tw mx) = style_left el"
  "style_top (fitTextToWidth scrollWidth el tw mx) = style_top el"
  "style_width (fitTextToWidth scrollWidth el tw mx) = style_width el"
  "style_height (fitTextToWidth scrollWidth el tw mx) = style_height el"
  "style_transform (fitTextToWidth scrollWidth el tw mx) = style_transform el"
  "style_transformOrigin (fitTextToWidth scrollWidth el tw mx) = style_transformOrigin el"
  "textContent (fitTextToWidth scrollWidth el tw mx) = textContent el"
  "className (fitTextToWidth scrollWidth el tw mx) = className el"
  by (simp_all add: fitTextToWidth_def Let_def)

lemma fitTextToWidth_fontSize:
  "style_fontSize (fitTextToWidth scrollWidth el tw mx) =
     Some (if scrollWidth (el\<lparr>style_fontSize := Some mx\<rparr>) \<le> tw then mx
           else max (mx * (tw / scrollWidth (el\<lparr>style_fontSize := Some mx\<rparr>))) 8)"
  by (simp add: fitTextToWidth_def Let_def)

lemma fitTextToWidth_reset:
  "(fitTextToWidth scrollWidth el tw mx)\<lparr>style_fontSize := Some mx\<rparr> =
   el\<lparr>style_fontSize := Some mx\<rparr>"
  by (simp add: fitTextToWidth_def Let_def)

lemma renderObservation_geometry:
  assumes "renderObservation scrollWidth W H obs = Some sp"
  shows "style_left sp = rect_x (boundingBox obs) * W - 1"
    and "style_top sp = (1 - rect_y (boundingBox obs) - rect_height (boundingBox obs)) * H - 1"
    and "style_width sp = rect_width (boundingBox obs) * W + 2"
    and "style_height sp = rect_height (boundingBox obs) * H + 2"
    and "textContent sp = obs_text obs"
    and "10 \<le> rect_width (boundingBox obs) * W"
    and "8 \<le> rect_height (boundingBox obs) * H"
  using assms
  by (auto simp: renderObservation_def Let_def fitTextToWidth_style split: if_splits)

lemma renderObservation_transform:
  assumes "renderObservation scrollWidth W H obs = Some sp"
  shows "style_transform sp =
           (if \<bar>calculateRotation obs\<bar> > 0.5 then Some (calculateRotation obs) else None)"
    and "style_transformOrigin sp =
           (if \<bar>calculateRotation obs\<bar> > 0.5 then Some ''left top'' else None)"
  using assms
  by (auto simp: renderObservation_def Let_def fitTextToWidth_style split: if_splits)

lemma renderObservation_fontSize:
  assumes "renderObservation scrollWidth W H obs = Some sp"
  shows "style_fontSize sp =
     Some (if scrollWidth (sp\<lparr>style_fontSize := Some (style_height sp)\<rparr>) \<le> style_width sp
           then style_height sp
           else max (style_height sp *
                     (style_width sp / scrollWidth (sp\<lparr>style_fontSize := Some (style_height sp)\<rparr>))) 8)"
proof -
  let ?w = "rect_width (boundingBox obs) * W + 2"
  let ?h = "rect_height (boundingBox obs) * H + 2"
  from assms obtain el where
    sp: "sp = fitTextToWidth scrollWidth el ?w ?h"
    by (auto simp: renderObservation_def Let_def split: if_splits)
  have w: "style_width sp = ?w" and h: "style_height sp = ?h"
    using renderObservation_geometry [OF assms] by simp_all
  have "sp\<lparr>style_fontSize := Some ?h\<rparr> = el\<lparr>style_fontSize := Some ?h\<rparr>"
    unfolding sp by (rule fitTextToWidth_reset)
  then show ?thesis
    unfolding w h by (simp add: sp fitTextToWidth_fontSize)
qed

lemma scaled_below_max:
  fixes mx tw m :: real
  assumes "0 \<le> mx" and "0 \<le> tw" and "tw < m"
  shows "mx * (tw / m) \<le> mx"
proof -
  from assms have "0 < m" by simp
  with assms have "tw / m \<le> 1" by simp
  with assms(1) have "mx * (tw / m) \<le> mx * 1" by (rule mult_left_mono [rotated])
  then show ?thesis by simp
qed

lemma calculateRotation_level: "calculateRotation levelObservation = 0"
  by (simp add: calculateRotation_def atan2_def levelObservation_def)

lemma calculateRotation_rising: "calculateRotation risingObservation = - 45"
proof -
  have "arctan (- 1) = - (pi / 4)"
    by (simp add: arctan_minus arctan_one)
  then show ?thesis
    by (simp add: calculateRotation_def atan2_def risingObservation_def)
qed

lemma render_level:
  "renderObservation sampleScrollWidth 100 100 levelObservation = Some levelSpan"
  using calculateRotation_level
  by (simp add: renderObservation_def Let_def fitTextToWidth_def sampleScrollWidth_def
                levelObservation_def levelSpan_def)

lemma render_rising:
  "renderObservation sampleScrollWidth 100 100 risingObservation = Some risingSpan"
  using calculateRotation_rising
  by (simp add: renderObservation_def Let_def fitTextToWidth_def sampleScrollWidth_def
                risingObservation_def risingSpan_def)

lemma render_speck:
  "renderObservation sampleScrollWidth 100 100 speckObservation = None"
  by (simp add: renderObservation_None speckObservation_def)

subsection \<open>Fitting the text to the box\<close>

text \<open>
  Claim C3, amended. For every observation the renderer gives a span, the font size it
  ends with is at least 8 and at most the height of the span, which is the box's pixel
  height plus the 2 pixels of padding. The size starts at that padded height and stays
  there when the width measured at that size is within the padded width; otherwise it is
  the padded height scaled by padded width over measured width, and 8 when that is less.
\<close>

theorem fit_text_size_bounds:
  assumes "renderObservation scrollWidth W H obs = Some sp"
  shows
    "\<exists>fontSize. style_fontSize sp = Some fontSize \<and> 8 \<le> fontSize \<and>
        fontSize \<le> rect_height (boundingBox obs) * H + 2 \<and>
        fontSize =
          (if scrollWidth (sp\<lparr>style_fontSize := Some (rect_height (boundingBox obs) * H + 2)\<rparr>)
              \<le> rect_width (boundingBox obs) * W + 2
           then rect_height (boundingBox obs) * H + 2
           else max ((rect_height (boundingBox obs) * H + 2) *
                     ((rect_width (boundingBox obs) * W + 2) /
                      scrollWidth (sp\<lparr>style_fontSize :=
                                       Some (rect_height (boundingBox obs) * H + 2)\<rparr>))) 8)"
proof -
  let ?tw = "rect_width (boundingBox obs) * W + 2"
  let ?mx = "rect_height (boundingBox obs) * H + 2"
  let ?m = "scrollWidth (sp\<lparr>style_fontSize := Some ?mx\<rparr>)"
  let ?size = "if ?m \<le> ?tw then ?mx else max (?mx * (?tw / ?m)) 8"
  note g = renderObservation_geometry [OF assms]
  have fs: "style_fontSize sp = Some ?size"
    using renderObservation_fontSize [OF assms] g by simp
  have mx: "10 \<le> ?mx" and tw: "12 \<le> ?tw" using g by simp_all
  have lo: "8 \<le> ?size" using mx by simp
  have hi: "?size \<le> ?mx"
  proof (cases "?m \<le> ?tw")
    case True
    then show ?thesis by simp
  next
    case False
    then have "?mx * (?tw / ?m) \<le> ?mx"
      using mx tw by (intro scaled_below_max) simp_all
    with False mx show ?thesis by simp
  qed
  from fs lo hi show ?thesis by blast
qed

text \<open>
  C3 on the rising line: 30 characters measure 180 pixels at size 12, and the size ends at 8.
\<close>

theorem fit_text_size_bounds_witness:
  "renderObservation sampleScrollWidth 100 100 risingObservation = Some risingSpan \<and>
   style_fontSize risingSpan = Some 8 \<and>
   (8::real) \<le> rect_height (boundingBox risingObservation) * 100 + 2 \<and>
   rect_height (boundingBox risingObservation) * 100 + 2 = 12 \<and>
   sampleScrollWidth (risingSpan\<lparr>style_fontSize := Some 12\<rparr>) = 180"
  using fit_text_size_bounds [OF render_rising] render_rising
  by (simp add: risingSpan_def risingObservation_def sampleScrollWidth_def)

text \<open>
  Claim C3 as stated fails on the level line: its box is 10 pixels high, its text fits,
  and its font size is 12.
\<close>

theorem font_size_above_box_height_counterexample:
  "rect_height (boundingBox levelObservation) * 100 = 10 \<and>
   renderObservation sampleScrollWidth 100 100 levelObservation = Some levelSpan \<and>
   style_fontSize levelSpan = Some 12 \<and>
   \<not> (12::real) \<le> rect_height (boundingBox levelObservation) * 100"
  using render_level by (simp add: levelObservation_def levelSpan_def)

subsection \<open>Which observations are rendered, and where\<close>

text \<open>
  Claim C5 at an observation of 5 by 10 pixels: the renderer makes no span of it, and
  the number it logs as rendered is 1. (That an observation gets a span exactly when its
  box is at least 10 pixels wide and 8 high, and where the span is put, are the lemmas
  \<open>renderObservation_None\<close> and \<open>renderObservation_geometry\<close> above.)
\<close>

theorem speck_dropped_but_counted:
  "rect_width (boundingBox speckObservation) * 100 = 5 \<and>
   renderOCRResults sampleScrollWidth 100 100
     \<lparr>imageWidth = 800, imageHeight = 600, observations = [speckObservation], bounds = None\<rparr> =
   ([], 1)"
  using render_speck
  by (simp add: renderOCRResults_def List.map_filter_simps speckObservation_def)

subsection \<open>Rotation\<close>

text \<open>
  Claim C6. The angle is \<open>atan2 (- dy) dx\<close> in degrees, for the vector \<open>(dx, dy)\<close> from
  the top left corner to the top right corner. A span has the rotation by that angle, about
  its own top left corner, exactly when the angle's magnitude is more than 0.5, and no
  transform otherwise. For the corners (0, 1) and (1, 1) the angle is 0 and the span has
  no transform.
\<close>

theorem rotation_from_corners:
  "calculateRotation obs =
     atan2 (- (point_y (topRight obs) - point_y (topLeft obs)))
           (point_x (topRight obs) - point_x (topLeft obs)) * (180 / pi) \<and>
   (renderObservation scrollWidth W H obs = Some sp \<longrightarrow>
      style_transform sp =
        (if \<bar>calculateRotation obs\<bar> > 0.5 then Some (calculateRotation obs) else None) \<and>
      style_transformOrigin sp =
        (if \<bar>calculateRotation obs\<bar> > 0.5 then Some ''left top'' else None)) \<and>
   (topLeft obs = \<lparr>point_x = 0, point_y = 1\<rparr> \<and> topRight obs = \<lparr>point_x = 1, point_y = 1\<rparr> \<longrightarrow>
      calculateRotation obs = 0 \<and>
      (renderObservation scrollWidth W H obs = Some sp \<longrightarrow>
         style_transform sp = None \<and> style_transformOrigin sp = None))"
proof -
  have a: "calculateRotation obs =
     atan2 (- (point_y (topRight obs) - point_y (topLeft obs)))
           (point_x (topRight obs) - point_x (topLeft obs)) * (180 / pi)"
    by (simp add: calculateRotation_def Let_def)
  have b: "calculateRotation obs = 0"
    if "topLeft obs = \<lparr>point_x = 0, point_y = 1\<rparr>" "topRight obs = \<lparr>point_x = 1, point_y = 1\<rparr>"
    using that by (simp add: calculateRotation_def atan2_def)
  show ?thesis
    using a b renderObservation_transform [of scrollWidth W H obs sp] by auto
qed

text \<open>
  C6 on the level line (angle 0, no transform) and on the rising line (angle -45).
\<close>

theorem rotation_from_corners_witness:
  "topLeft levelObservation = \<lparr>point_x = 0, point_y = 1\<rparr> \<and>
   topRight levelObservation = \<lparr>point_x = 1, point_y = 1\<rparr> \<and>
   renderObservation sampleScrollWidth 100 100 levelObservation = Some levelSpan \<and>
   calculateRotation levelObservation = 0 \<and> style_transform levelSpan = None \<and>
   renderObservation sampleScrollWidth 100 100 risingObservation = Some risingSpan \<and>
   calculateRotation risingObservation = - 45 \<and> style_transform risingSpan = Some (- 45)"
proof -
  have h1: "topLeft levelObservation = \<lparr>point_x = 0, point_y = 1\<rparr>"
    and h2: "topRight levelObservation = \<lparr>point_x = 1, point_y = 1\<rparr>"
    by (simp_all add: levelObservation_def)
  have level: "calculateRotation levelObservation = 0 \<and> style_transform levelSpan = None"
    using rotation_from_corners [of levelObservation sampleScrollWidth 100 100 levelSpan]
      h1 h2 render_level by blast
  have rising: "style_transform risingSpan = Some (- 45)"
    by (simp add: risingSpan_def)
  show ?thesis
    using h1 h2 level rising render_level render_rising calculateRotation_rising by blast
qed

end
